theory Spec2Isabelle
  imports Main "HOL-Library.AList"
begin

section \<open>Go values shared by the components\<close>

text \<open>
  A Go string is a sequence of bytes, and so is an Isabelle \<open>string\<close>. Run-time
  panics and blocking channel operations are values of \<open>fault\<close>; a function that can
  panic returns \<open>fault + 'a\<close>. Go's \<open>error\<close> values are the datatype \<open>error\<close>.
\<close>

datatype fault =
    SliceOutOfRange
  | NilDereference
  | NilMapWrite
  | ChanSizeOutOfRange
  | SendOnClosedChannel
  | CloseOfClosedChannel
  | Blocked

datatype error = EOF | ErrWriteTimeout | ErrorString string

subsection \<open>The functions of Go's package strings that the scanner calls\<close>

text \<open>\<open>strings.Split(s, ",")\<close>: the substrings between the separators, at least one.\<close>

fun Split :: "string \<Rightarrow> char \<Rightarrow> string list" where
  "Split [] sep = [[]]"
| "Split (c # cs) sep =
     (if c = sep then [] # Split cs sep
      else (case Split cs sep of [] \<Rightarrow> [[c]] | w # ws \<Rightarrow> (c # w) # ws))"

text \<open>
  The UTF-8 encodings of the code points for which \<open>unicode.IsSpace\<close> holds:
  U+0009 to U+000D, U+0020, U+0085, U+00A0, U+1680, U+2000 to U+200A, U+2028, U+2029,
  U+202F, U+205F and U+3000.
\<close>

definition whiteSpace :: "string list" where
  "whiteSpace =
     [[CHR 0x09], [CHR 0x0A], [CHR 0x0B], [CHR 0x0C], [CHR 0x0D], [CHR 0x20],
      [CHR 0xC2, CHR 0x85], [CHR 0xC2, CHR 0xA0],
      [CHR 0xE1, CHR 0x9A, CHR 0x80],
      [CHR 0xE2, CHR 0x80, CHR 0x80], [CHR 0xE2, CHR 0x80, CHR 0x81],
      [CHR 0xE2, CHR 0x80, CHR 0x82], [CHR 0xE2, CHR 0x80, CHR 0x83],
      [CHR 0xE2, CHR 0x80, CHR 0x84], [CHR 0xE2, CHR 0x80, CHR 0x85],
      [CHR 0xE2, CHR 0x80, CHR 0x86], [CHR 0xE2, CHR 0x80, CHR 0x87],
      [CHR 0xE2, CHR 0x80, CHR 0x88], [CHR 0xE2, CHR 0x80, CHR 0x89],
      [CHR 0xE2, CHR 0x80, CHR 0x8A],
      [CHR 0xE2, CHR 0x80, CHR 0xA8], [CHR 0xE2, CHR 0x80, CHR 0xA9],
      [CHR 0xE2, CHR 0x80, CHR 0xAF],
      [CHR 0xE2, CHR 0x81, CHR 0x9F],
      [CHR 0xE3, CHR 0x80, CHR 0x80]]"

text \<open>The number of bytes of the white-space code point that \<open>s\<close> starts with, else 0.\<close>

definition spaceWidth :: "string list \<Rightarrow> string \<Rightarrow> nat" where
  "spaceWidth table s =
     (case find (\<lambda>e. take (length e) s = e) table of None \<Rightarrow> 0 | Some e \<Rightarrow> length e)"

fun dropSpaces :: "string list \<Rightarrow> string \<Rightarrow> string" where
  "dropSpaces table [] = []"
| "dropSpaces table (c # cs) =
     (if spaceWidth table (c # cs) = 0 then c # cs
      else dropSpaces table (drop (spaceWidth table (c # cs) - 1) cs))"

text \<open>
  \<open>strings.TrimSpace\<close>: all leading and trailing white space removed. Trailing white
  space is the leading white space of the reversed string, read against the reversed
  encodings.
\<close>

definition TrimSpace :: "string \<Rightarrow> string" where
  "TrimSpace s = rev (dropSpaces (map rev whiteSpace) (rev (dropSpaces whiteSpace s)))"

text \<open>
  \<open>strings.FieldsFunc(s, f)\<close>: the maximal runs of bytes that do not satisfy \<open>f\<close>; an
  empty run is no field. The separators of the scanner are ASCII, so that splitting
  at bytes is splitting at code points.
\<close>

fun fieldsFrom :: "(char \<Rightarrow> bool) \<Rightarrow> string \<Rightarrow> string \<Rightarrow> string list" where
  "fieldsFrom f cur [] = (if cur = [] then [] else [cur])"
| "fieldsFrom f cur (c # cs) =
     (if f c then (if cur = [] then fieldsFrom f [] cs else cur # fieldsFrom f [] cs)
      else fieldsFrom f (cur @ [c]) cs)"

definition FieldsFunc :: "string \<Rightarrow> (char \<Rightarrow> bool) \<Rightarrow> string list" where
  "FieldsFunc s f = fieldsFrom f [] s"

section \<open>Scanner (pkg/logs/input/container/scanner.go)\<close>

record Container =
  c_ID :: string
  c_Image :: string
  c_Labels :: "string \<rightharpoonup> string"

record LogsConfig =
  cfg_Type :: string
  cfg_Path :: string
  cfg_Image :: string
  cfg_Label :: string

text \<open>
  A log source: its configuration and its status sink. The sink is the sequence of
  the errors reported to it by \<open>Status.Error\<close>, oldest first.
\<close>

record LogSource =
  Config :: LogsConfig
  Status :: "error list"

record DockerTailer =
  ContainerID :: string
  t_source :: LogSource
  t_fromBeginning :: bool
  t_shouldStop :: bool

record client =
  version :: string
  manualOverride :: bool

text \<open>
  The scanner. The registry \<open>tailers\<close> is a Go map, here an association list: a
  lookup is \<open>map_of\<close>, a store \<open>AList.update\<close>, a removal \<open>AList.delete\<close>, and a
  \<open>range\<close> loop visits the keys in the list's order. \<open>stopped\<close> lists the container
  IDs of the tailers whose \<open>Stop\<close> was called, oldest first. The pipeline provider,
  the auditor and the ticker are outside the model.
\<close>

record Scanner =
  sources :: "LogSource list"
  tailers :: "(string \<times> DockerTailer) list"
  cli :: "client option"
  s_shouldStop :: bool
  stopped :: "string list"

text \<open>\<open>New\<close>, with the constant \<open>config.DockerType\<close> as a parameter.\<close>

definition New :: "string \<Rightarrow> LogSource list \<Rightarrow> Scanner" where
  "New DockerType srcs =
     \<lparr>sources = filter (\<lambda>source. cfg_Type (Config source) = DockerType) srcs,
      tailers = [], cli = None, s_shouldStop = False, stopped = []\<rparr>"

definition isLabelSeparator :: "char \<Rightarrow> bool" where
  "isLabelSeparator c = (c = CHR '':'' \<or> c = CHR ''='')"

text \<open>Reading a Go map of strings: the empty string for a key that is absent.\<close>

definition labelValue :: "(string \<rightharpoonup> string) \<Rightarrow> string \<Rightarrow> string" where
  "labelValue m k = (case m k of None \<Rightarrow> [] | Some v \<Rightarrow> v)"

text \<open>The loop over the comma-separated labels; it returns at the first match.\<close>

fun labelsLoop :: "Container \<Rightarrow> string list \<Rightarrow> bool" where
  "labelsLoop container [] = False"
| "labelsLoop container (v # rest) =
     (if c_Labels container (TrimSpace v) \<noteq> None
         \<or> (length (FieldsFunc (TrimSpace v) isLabelSeparator) = 2
            \<and> labelValue (c_Labels container) (FieldsFunc (TrimSpace v) isLabelSeparator ! 0)
                = FieldsFunc (TrimSpace v) isLabelSeparator ! 1)
      then True
      else labelsLoop container rest)"

definition sourceShouldMonitorContainer :: "LogSource \<Rightarrow> Container \<Rightarrow> bool" where
  "sourceShouldMonitorContainer source container =
     (if cfg_Image (Config source) \<noteq> [] \<and> c_Image container \<noteq> cfg_Image (Config source)
      then False
      else if cfg_Label (Config source) \<noteq> []
      then labelsLoop container (Split (cfg_Label (Config source)) CHR '','')
      else True)"

text \<open>\<open>containerID[:12]\<close> panics when the string has fewer than 12 bytes.\<close>

definition humanReadableContainerID :: "string \<Rightarrow> fault + string" where
  "humanReadableContainerID containerID =
     (if length containerID < 12 then Inl SliceOutOfRange else Inr (take 12 containerID))"

text \<open>
  Modelled from the spec: \<open>NewDockerTailer\<close> is not among the sources. The spec's
  tailer is one read session keyed by its container's ID, so the new tailer carries the
  container's ID and its source, and has not asked to be stopped.
\<close>

definition NewDockerTailer :: "Container \<Rightarrow> LogSource \<Rightarrow> DockerTailer" where
  "NewDockerTailer container source =
     \<lparr>ContainerID = c_ID container, t_source = source, t_fromBeginning = False,
      t_shouldStop = False\<rparr>"

text \<open>
  \<open>setupTailer\<close>: the log line evaluates \<open>humanReadableContainerID\<close> first. The error
  of \<open>tailFromBeginning\<close> or \<open>recoverTailing\<close> is only logged, so the tailer is stored
  either way; the tailer records which of the two started it.
\<close>

definition setupTailer :: "Container \<Rightarrow> LogSource \<Rightarrow> bool \<Rightarrow> Scanner \<Rightarrow> fault + Scanner" where
  "setupTailer container source tailFromBeginning s =
     (case humanReadableContainerID (c_ID container) of
        Inl e \<Rightarrow> Inl e
      | Inr _ \<Rightarrow>
          Inr (s\<lparr>tailers :=
                 AList.update (c_ID container)
                   ((NewDockerTailer container source)\<lparr>t_fromBeginning := tailFromBeginning\<rparr>)
                   (tailers s)\<rparr>))"

definition stopTailer :: "DockerTailer \<Rightarrow> Scanner \<Rightarrow> Scanner" where
  "stopTailer tailer s =
     s\<lparr>stopped := stopped s @ [ContainerID tailer],
       tailers := AList.delete (ContainerID tailer) (tailers s)\<rparr>"

text \<open>\<open>listContainers\<close>: the client's answer, or no container when the client fails.\<close>

definition listContainers :: "error + Container list \<Rightarrow> Container list" where
  "listContainers answer = (case answer of Inl err \<Rightarrow> [] | Inr containers \<Rightarrow> containers)"

text \<open>
  The body of \<open>scan\<close>'s inner loop for a source that matches the container:
  \<open>containersToMonitor\<close> is the set \<open>m\<close>.
\<close>

definition monitorContainer ::
  "bool \<Rightarrow> Container \<Rightarrow> LogSource \<Rightarrow> string set \<times> Scanner \<Rightarrow> fault + (string set \<times> Scanner)" where
  "monitorContainer tailFromBeginning container source ms =
     (case ms of (m, s) \<Rightarrow>
        (case map_of (tailers s) (c_ID container) of
           None \<Rightarrow>
             (case setupTailer container source tailFromBeginning s of
                Inl e \<Rightarrow> Inl e
              | Inr s' \<Rightarrow> Inr (insert (c_ID container) m, s'))
         | Some tailer \<Rightarrow>
             if t_shouldStop tailer
             then (case setupTailer container source tailFromBeginning (stopTailer tailer s) of
                     Inl e \<Rightarrow> Inl e
                   | Inr s' \<Rightarrow> Inr (insert (c_ID container) m, s'))
             else Inr (insert (c_ID container) m, s)))"

fun scanSources ::
  "bool \<Rightarrow> Container \<Rightarrow> LogSource list \<Rightarrow> string set \<times> Scanner \<Rightarrow> fault + (string set \<times> Scanner)" where
  "scanSources tailFromBeginning container [] ms = Inr ms"
| "scanSources tailFromBeginning container (source # rest) ms =
     (if sourceShouldMonitorContainer source container
      then (case monitorContainer tailFromBeginning container source ms of
              Inl e \<Rightarrow> Inl e
            | Inr ms' \<Rightarrow> scanSources tailFromBeginning container rest ms')
      else scanSources tailFromBeginning container rest ms)"

fun scanContainers ::
  "bool \<Rightarrow> Container list \<Rightarrow> LogSource list \<Rightarrow> string set \<times> Scanner \<Rightarrow> fault + (string set \<times> Scanner)" where
  "scanContainers tailFromBeginning [] srcs ms = Inr ms"
| "scanContainers tailFromBeginning (container # rest) srcs ms =
     (case scanSources tailFromBeginning container srcs ms of
        Inl e \<Rightarrow> Inl e
      | Inr ms' \<Rightarrow> scanContainers tailFromBeginning rest srcs ms')"

text \<open>
  The loop that stops old containers ranges over the registry while \<open>stopTailer\<close>
  deletes from it: an entry deleted before the loop reaches it is not visited.
\<close>

fun stopOldContainers :: "string list \<Rightarrow> string set \<Rightarrow> Scanner \<Rightarrow> Scanner" where
  "stopOldContainers [] m s = s"
| "stopOldContainers (containerID # rest) m s =
     (case map_of (tailers s) containerID of
        None \<Rightarrow> stopOldContainers rest m s
      | Some tailer \<Rightarrow>
          if containerID \<notin> m then stopOldContainers rest m (stopTailer tailer s)
          else stopOldContainers rest m s)"

text \<open>\<open>scan\<close>; \<open>answer\<close> is what the container runtime's list operation returns.\<close>

definition scan :: "bool \<Rightarrow> error + Container list \<Rightarrow> Scanner \<Rightarrow> fault + Scanner" where
  "scan tailFromBeginning answer s =
     (if s_shouldStop s then Inr s
      else (case scanContainers tailFromBeginning (listContainers answer) (sources s) ({}, s) of
              Inl e \<Rightarrow> Inl e
            | Inr (m, s') \<Rightarrow> Inr (stopOldContainers (map fst (tailers s')) m s')))"

text \<open>
  \<open>UpdateClientVersion\<close> of the Docker client library reads and writes fields of its
  receiver, so it dereferences the client handle: a nil handle panics.
\<close>

definition UpdateClientVersion :: "string \<Rightarrow> client option \<Rightarrow> fault + client option" where
  "UpdateClientVersion v handle =
     (case handle of
        None \<Rightarrow> Inl NilDereference
      | Some c \<Rightarrow> Inr (Some (if manualOverride c then c else c\<lparr>version := v\<rparr>)))"

definition dockerAPIVersion :: string where
  "dockerAPIVersion = ''1.25''"

text \<open>
  The scanner's method \<open>setup\<close> (the name is a keyword of Isabelle, hence
  \<open>scanner_setup\<close>). \<open>newEnvClient\<close> is the pair that \<open>client.NewEnvClient()\<close> returns, and
  \<open>answer\<close> the container list that the first scan reads. The error of \<open>tagger.Init\<close>
  is only logged. The result is the error returned, if any, and the scanner.
\<close>

definition scanner_setup ::
  "client option \<times> error option \<Rightarrow> error + Container list \<Rightarrow> Scanner \<Rightarrow> fault + (error option \<times> Scanner)" where
  "scanner_setup newEnvClient answer s =
     (if length (sources s) = 0 then Inr (Some (ErrorString ''No container source defined''), s)
      else (case UpdateClientVersion dockerAPIVersion (fst newEnvClient) of
              Inl e \<Rightarrow> Inl e
            | Inr handle \<Rightarrow>
                if snd newEnvClient \<noteq> None
                then Inr (Some (ErrorString (''Can'' @ [CHR 0x27] @ ''t initialize client'')), s\<lparr>cli := handle\<rparr>)
                else (case scan False answer (s\<lparr>cli := handle\<rparr>) of
                        Inl e \<Rightarrow> Inl e
                      | Inr s' \<Rightarrow> Inr (None, s'))))"

text \<open>
  \<open>Start\<close> returns nothing to its caller; the model returns the scanner and whether
  the goroutine of \<open>run\<close> was launched.
\<close>

definition Start ::
  "client option \<times> error option \<Rightarrow> error + Container list \<Rightarrow> Scanner \<Rightarrow> fault + (Scanner \<times> bool)" where
  "Start newEnvClient answer s =
     (case scanner_setup newEnvClient answer s of
        Inl e \<Rightarrow> Inl e
      | Inr (err, s') \<Rightarrow> Inr (s', err = None))"

subsection \<open>The match predicate in the words of the specification\<close>

text \<open>
  The specification's predicate, for comparison with \<open>sourceShouldMonitorContainer\<close>:
  the label list is split on commas and each entry trimmed; an entry matches when it
  is a label key of the container, or when it splits into exactly two parts on \<open>:\<close>
  or \<open>=\<close> and the container maps the first part to the second.
\<close>

definition spec_entries :: "string \<Rightarrow> string list" where
  "spec_entries labels = map TrimSpace (Split labels CHR '','')"

definition spec_entry_matches :: "Container \<Rightarrow> string \<Rightarrow> bool" where
  "spec_entry_matches container entry =
     (c_Labels container entry \<noteq> None
      \<or> (case FieldsFunc entry isLabelSeparator of
            [k, v] \<Rightarrow> c_Labels container k = Some v
          | _ \<Rightarrow> False))"

text \<open>
  The specification's three cases, read as written: a source with an image is decided
  by the image alone; else a source with labels by its labels; else every container
  matches.
\<close>

definition spec_sourceShouldMonitorContainer :: "LogSource \<Rightarrow> Container \<Rightarrow> bool" where
  "spec_sourceShouldMonitorContainer source container =
     (if cfg_Image (Config source) \<noteq> [] then c_Image container = cfg_Image (Config source)
      else if cfg_Label (Config source) \<noteq> []
      then list_ex (spec_entry_matches container) (spec_entries (cfg_Label (Config source)))
      else True)"

subsection \<open>Notions used to state the scanner's properties\<close>

text \<open>Every tailer of the registry is stored under its own container ID.\<close>

definition tailersKeyed :: "Scanner \<Rightarrow> bool" where
  "tailersKeyed s = list_all (\<lambda>(k, tailer). ContainerID tailer = k) (tailers s)"

text \<open>Some source of the list matches the container.\<close>

definition matched :: "LogSource list \<Rightarrow> Container \<Rightarrow> bool" where
  "matched srcs container =
     list_ex (\<lambda>source. sourceShouldMonitorContainer source container) srcs"

text \<open>The IDs of the containers that some source matches.\<close>

definition monitored :: "LogSource list \<Rightarrow> Container list \<Rightarrow> string set" where
  "monitored srcs containers = c_ID ` set (filter (matched srcs) containers)"

text \<open>
  A matched container gets a new tailer when it has none, or when its tailer has
  asked to be stopped.
\<close>

definition needsTailer :: "Scanner \<Rightarrow> Container \<Rightarrow> bool" where
  "needsTailer s container =
     (case map_of (tailers s) (c_ID container) of
        None \<Rightarrow> True
      | Some tailer \<Rightarrow> t_shouldStop tailer)"

text \<open>Sources and containers of the examples: a source is its image and label filters.\<close>

definition filterSource :: "string \<Rightarrow> string \<Rightarrow> LogSource" where
  "filterSource img lbl =
     \<lparr>Config = \<lparr>cfg_Type = ''docker'', cfg_Path = [], cfg_Image = img, cfg_Label = lbl\<rparr>,
      Status = []\<rparr>"

definition idleScanner :: "LogSource list \<Rightarrow> (string \<times> DockerTailer) list \<Rightarrow> Scanner" where
  "idleScanner srcs registry =
     \<lparr>sources = srcs, tailers = registry, cli = None, s_shouldStop = False, stopped = []\<rparr>"

definition exTailer :: "string \<Rightarrow> bool \<Rightarrow> DockerTailer" where
  "exTailer cid stop =
     \<lparr>ContainerID = cid, t_source = filterSource [] [], t_fromBeginning = True, t_shouldStop = stop\<rparr>"

section \<open>FileProvider (pkg/logs/input/tailer, file provider)\<close>

text \<open>
  A file to tail. \<open>f_Source\<close> is the pointer to the owning source, here the position
  of that source in the provider's list.
\<close>

record File =
  f_Path :: string
  f_Source :: nat

definition NewFile :: "string \<Rightarrow> nat \<Rightarrow> File" where
  "NewFile path source = \<lparr>f_Path = path, f_Source = source\<rparr>"

record FileProvider =
  fp_sources :: "LogSource list"
  filesLimit :: int

definition NewFileProvider :: "LogSource list \<Rightarrow> int \<Rightarrow> FileProvider" where
  "NewFileProvider srcs limit = \<lparr>fp_sources = srcs, filesLimit = limit\<rparr>"

text \<open>\<open>strings.ContainsAny(path, "*?[")\<close>.\<close>

definition containsWildcards :: "string \<Rightarrow> bool" where
  "containsWildcards path = list_ex (\<lambda>c. c \<in> set ''*?['') path"

text \<open>
  Modelled from the spec: the status type of a source is not among the sources. The
  spec's status sink records the discovery errors reported to it; \<open>Status.Error\<close>
  appends one.
\<close>

definition statusError :: "error \<Rightarrow> LogSource \<Rightarrow> LogSource" where
  "statusError err source = source\<lparr>Status := Status source @ [err]\<rparr>"

definition malformedPattern :: "string \<Rightarrow> error" where
  "malformedPattern pattern =
     ErrorString (''Malformed pattern, could not find any file: '' @ pattern)"

definition noFileMatching :: "string \<Rightarrow> error" where
  "noFileMatching pattern =
     ErrorString (''No file are matching pattern '' @ pattern
                  @ '', check directories permissions'')"

text \<open>The inner loop: the paths of one expansion, appended while the limit allows.\<close>

fun appendPaths :: "int \<Rightarrow> nat \<Rightarrow> string list \<Rightarrow> File list \<Rightarrow> File list" where
  "appendPaths limit i [] filesToTail = filesToTail"
| "appendPaths limit i (p # paths) filesToTail =
     (if int (length filesToTail) < limit
      then appendPaths limit i paths (filesToTail @ [NewFile p i])
      else filesToTail)"

text \<open>
  The outer loop. \<open>glob\<close> is \<open>filepath.Glob\<close> on the file system of the call: the
  error of a malformed pattern, or the matches in the order reported. \<open>seen\<close> are the
  sources already visited, with their sinks as the loop left them, so that the index
  \<open>i\<close> of the source is \<open>length seen\<close>; \<open>continue\<close> goes on with the next source.
  The result is \<open>filesToTail\<close> and the sources with their sinks.
\<close>

fun filesLoop ::
  "(string \<Rightarrow> error + string list) \<Rightarrow> int \<Rightarrow> LogSource list \<Rightarrow> LogSource list \<Rightarrow> File list
    \<Rightarrow> File list \<times> LogSource list" where
  "filesLoop glob limit seen [] filesToTail = (filesToTail, seen)"
| "filesLoop glob limit seen (source # rest) filesToTail =
     (if int (length filesToTail) < limit
      then
        (if \<not> containsWildcards (cfg_Path (Config source))
         then filesLoop glob limit (seen @ [source]) rest
                (filesToTail @ [NewFile (cfg_Path (Config source)) (length seen)])
         else
           (case glob (cfg_Path (Config source)) of
              Inl err \<Rightarrow>
                filesLoop glob limit
                  (seen @ [statusError (malformedPattern (cfg_Path (Config source))) source])
                  rest filesToTail
            | Inr paths \<Rightarrow>
                if length paths = 0
                then filesLoop glob limit
                       (seen @ [statusError (noFileMatching (cfg_Path (Config source))) source])
                       rest filesToTail
                else filesLoop glob limit (seen @ [source]) rest
                       (appendPaths limit (length seen) paths filesToTail)))
      else (filesToTail, seen @ source # rest))"

text \<open>\<open>FilesToTail\<close>; the warning at the limit is only logged.\<close>

definition FilesToTail ::
  "(string \<Rightarrow> error + string list) \<Rightarrow> FileProvider \<Rightarrow> File list \<times> LogSource list" where
  "FilesToTail glob r = filesLoop glob (filesLimit r) [] (fp_sources r) []"

subsection \<open>Notions used to state the provider's properties\<close>

text \<open>The files that the source at position \<open>i\<close> offers, before any limit.\<close>

definition filesOf :: "(string \<Rightarrow> error + string list) \<Rightarrow> nat \<Rightarrow> LogSource \<Rightarrow> File list" where
  "filesOf glob i source =
     (if \<not> containsWildcards (cfg_Path (Config source))
      then [NewFile (cfg_Path (Config source)) i]
      else (case glob (cfg_Path (Config source)) of
              Inl err \<Rightarrow> []
            | Inr paths \<Rightarrow> map (\<lambda>p. NewFile p i) paths))"

text \<open>The files that the sources from position \<open>i\<close> on offer, in the list's order.\<close>

fun allFiles :: "(string \<Rightarrow> error + string list) \<Rightarrow> nat \<Rightarrow> LogSource list \<Rightarrow> File list" where
  "allFiles glob i [] = []"
| "allFiles glob i (source # rest) = filesOf glob i source @ allFiles glob (Suc i) rest"

text \<open>The expansion of the source's pattern fails or finds nothing.\<close>

definition expansionFails :: "(string \<Rightarrow> error + string list) \<Rightarrow> LogSource \<Rightarrow> bool" where
  "expansionFails glob source =
     (containsWildcards (cfg_Path (Config source))
      \<and> (case glob (cfg_Path (Config source)) of Inl err \<Rightarrow> True | Inr paths \<Rightarrow> paths = []))"

text \<open>The error that the loop reports for such a source.\<close>

definition expansionError :: "(string \<Rightarrow> error + string list) \<Rightarrow> LogSource \<Rightarrow> error" where
  "expansionError glob source =
     (case glob (cfg_Path (Config source)) of
        Inl err \<Rightarrow> malformedPattern (cfg_Path (Config source))
      | Inr paths \<Rightarrow> noFileMatching (cfg_Path (Config source)))"

text \<open>What one visit of the loop leaves of a source.\<close>

definition visited :: "(string \<Rightarrow> error + string list) \<Rightarrow> LogSource \<Rightarrow> LogSource" where
  "visited glob source =
     (if expansionFails glob source then statusError (expansionError glob source) source
      else source)"

text \<open>A file source of the examples, and a file system for them.\<close>

definition fileSource :: "string \<Rightarrow> LogSource" where
  "fileSource path =
     \<lparr>Config = \<lparr>cfg_Type = ''file'', cfg_Path = path, cfg_Image = [], cfg_Label = []\<rparr>,
      Status = []\<rparr>"

definition exampleGlob :: "string \<Rightarrow> error + string list" where
  "exampleGlob pattern =
     (if pattern = ''/var/log/app/*.log''
      then Inr [''/var/log/app/a.log'', ''/var/log/app/b.log'', ''/var/log/app/c.log'']
      else if pattern = ''/var/log/[''
      then Inl (ErrorString ''syntax error in pattern'')
      else Inr [])"

section \<open>EventFanout (pkg/util/docker, the generated event fan-out)\<close>

text \<open>
  What a channel carries: a pointer to a container event, an error, or the empty
  struct of the stop channel.
\<close>

datatype msg = Data nat | Err error | Signal

text \<open>
  A channel: its identity (the number of channels made before it), its capacity, the
  items sent and not yet received, and whether it is closed. Receives by consumers are
  steps of the environment between the calls of the fan-out.
\<close>

record chan =
  ch_id :: nat
  cap :: nat
  buf :: "msg list"
  closed :: bool

text \<open>
  Modelled from the spec: \<open>fanout.Config\<close> is declared outside the sources. Its fields
  are the three that \<open>Setup\<close> validates; \<open>WriteTimeout\<close> is a \<open>time.Duration\<close>, a signed
  count of nanoseconds, and \<open>OutputBufferSize\<close> a signed integer.
\<close>

record fanoutConfig =
  WriteTimeout :: int
  OutputBufferSize :: int
  Name :: string

record eventOutput =
  dataOutput :: chan
  errorOutput :: chan
  writeTimeout :: int

text \<open>
  The fan-out. A nil channel or a nil map is \<open>None\<close>. \<open>allocated\<close> counts the channels
  made so far and \<open>launched\<close> the \<open>dispatch\<close> goroutines started. The mutex makes each
  method one step.
\<close>

record eventFanout =
  config :: fanoutConfig
  dataInput :: "chan option"
  errorInput :: "chan option"
  stopChan :: "chan option"
  listeners :: "(string \<times> eventOutput) list option"
  running :: bool
  allocated :: nat
  launched :: nat

text \<open>The zero value of the struct, before any \<open>Setup\<close>.\<close>

definition zeroFanout :: eventFanout where
  "zeroFanout =
     \<lparr>config = \<lparr>WriteTimeout = 0, OutputBufferSize = 0, Name = []\<rparr>,
      dataInput = None, errorInput = None, stopChan = None, listeners = None,
      running = False, allocated = 0, launched = 0\<rparr>"

text \<open>
  What the Go runtime of the call allocates: the largest buffer size that \<open>make\<close>
  accepts for a channel of event pointers and for a channel of errors. The runtime
  derives them from the platform's allocation limit and the size of an element.
\<close>

record goRuntime =
  maxDataChan :: int
  maxErrorChan :: int

text \<open>
  \<open>make(chan T, n)\<close> panics with \<open>makechan: size out of range\<close> when \<open>n\<close> is negative
  or exceeds the largest size for the element type, here \<open>limit\<close>.
\<close>

definition makeChan :: "int \<Rightarrow> int \<Rightarrow> eventFanout \<Rightarrow> fault + (chan \<times> eventFanout)" where
  "makeChan limit n f =
     (if n < 0 \<or> limit < n then Inl ChanSizeOutOfRange
      else Inr (\<lparr>ch_id = allocated f, cap = nat n, buf = [], closed = False\<rparr>,
                f\<lparr>allocated := Suc (allocated f)\<rparr>))"

text \<open>
  A blocking send. A nil channel blocks for ever; a full one blocks until a receiver
  takes an item, which is a step of another goroutine.
\<close>

definition chanSend :: "chan option \<Rightarrow> msg \<Rightarrow> fault + chan option" where
  "chanSend ch m =
     (case ch of
        None \<Rightarrow> Inl Blocked
      | Some c \<Rightarrow>
          if closed c then Inl SendOnClosedChannel
          else if length (buf c) < cap c then Inr (Some (c\<lparr>buf := buf c @ [m]\<rparr>))
          else Inl Blocked)"

definition chanClose :: "chan \<Rightarrow> fault + chan" where
  "chanClose c = (if closed c then Inl CloseOfClosedChannel else Inr (c\<lparr>closed := True\<rparr>))"

text \<open>
  \<open>Setup\<close>. The result is the triple that the method returns, and the fan-out. The
  three channels are made unbuffered, unbuffered and with capacity 1.
\<close>

definition Setup ::
  "fanoutConfig \<Rightarrow> eventFanout \<Rightarrow> (chan option \<times> chan option \<times> error option) \<times> eventFanout" where
  "Setup cfg f =
     (if WriteTimeout cfg = 0
      then ((None, None, Some (ErrorString ''WriteTimeout must be higher than 0'')), f)
      else if OutputBufferSize cfg = 0
      then ((None, None, Some (ErrorString ''OutputBufferSize must be higher than 0'')), f)
      else if Name cfg = []
      then ((None, None, Some (ErrorString (''Name can'' @ [CHR 0x27] @ ''t be empty''))), f)
      else
        ((Some \<lparr>ch_id = allocated f, cap = 0, buf = [], closed = False\<rparr>,
          Some \<lparr>ch_id = allocated f + 1, cap = 0, buf = [], closed = False\<rparr>,
          None),
         f\<lparr>config := cfg,
           dataInput := Some \<lparr>ch_id = allocated f, cap = 0, buf = [], closed = False\<rparr>,
           errorInput := Some \<lparr>ch_id = allocated f + 1, cap = 0, buf = [], closed = False\<rparr>,
           stopChan := Some \<lparr>ch_id = allocated f + 2, cap = 1, buf = [], closed = False\<rparr>,
           listeners := Some [],
           allocated := allocated f + 3\<rparr>))"

definition Stop :: "eventFanout \<Rightarrow> fault + eventFanout" where
  "Stop f =
     (case chanSend (stopChan f) Signal of
        Inl e \<Rightarrow> Inl e
      | Inr c \<Rightarrow> Inr (f\<lparr>stopChan := c\<rparr>))"

text \<open>\<open>_, found := f.listeners[name]\<close>; reading a nil map finds nothing.\<close>

definition found :: "string \<Rightarrow> eventFanout \<Rightarrow> bool" where
  "found name f =
     (case listeners f of None \<Rightarrow> False | Some ls \<Rightarrow> map_of ls name \<noteq> None)"

definition alreadySuscribed :: "string \<Rightarrow> eventFanout \<Rightarrow> error" where
  "alreadySuscribed name f =
     ErrorString (''listener '' @ name @ '' is already suscribed to '' @ Name (config f))"

definition notSuscribed :: "string \<Rightarrow> eventFanout \<Rightarrow> error" where
  "notSuscribed name f =
     ErrorString (''listener '' @ name @ '' is not suscribed to '' @ Name (config f))"

text \<open>
  \<open>Suscribe\<close>, on the runtime \<open>rt\<close>. The two channels are made in the order of the
  struct literal; storing into a nil map panics; a goroutine is started when \<open>running\<close>
  is false.
\<close>

definition Suscribe ::
  "goRuntime \<Rightarrow> string \<Rightarrow> eventFanout
    \<Rightarrow> fault + ((chan option \<times> chan option \<times> error option) \<times> eventFanout)" where
  "Suscribe rt name f =
     (if found name f then Inr ((None, None, Some (alreadySuscribed name f)), f)
      else
        (case makeChan (maxDataChan rt) (OutputBufferSize (config f)) f of
           Inl e \<Rightarrow> Inl e
         | Inr (dataCh, f1) \<Rightarrow>
             (case makeChan (maxErrorChan rt) 2 f1 of
                Inl e \<Rightarrow> Inl e
              | Inr (errorCh, f2) \<Rightarrow>
                  (case listeners f2 of
                     None \<Rightarrow> Inl NilMapWrite
                   | Some ls \<Rightarrow>
                       Inr ((Some dataCh, Some errorCh, None),
                            f2\<lparr>listeners :=
                                 Some (AList.update name
                                   \<lparr>dataOutput = dataCh, errorOutput = errorCh,
                                    writeTimeout = WriteTimeout (config f)\<rparr> ls),
                               launched := (if running f2 then launched f2
                                            else Suc (launched f2))\<rparr>)))))"

text \<open>
  The \<open>select\<close> of \<open>sendData\<close> and \<open>sendError\<close>: a send against a timer.
  \<open>timerFirst\<close> says that the timer's case is taken although the send could proceed;
  with a full buffer the send cannot proceed and the timer's case is taken.
\<close>

definition trySend :: "bool \<Rightarrow> chan \<Rightarrow> msg \<Rightarrow> fault + (chan \<times> error option)" where
  "trySend timerFirst c m =
     (if timerFirst then Inr (c, Some ErrWriteTimeout)
      else if closed c then Inl SendOnClosedChannel
      else if length (buf c) < cap c then Inr (c\<lparr>buf := buf c @ [m]\<rparr>, None)
      else Inr (c, Some ErrWriteTimeout))"

definition sendData :: "bool \<Rightarrow> eventOutput \<Rightarrow> nat \<Rightarrow> fault + (eventOutput \<times> error option)" where
  "sendData timerFirst output d =
     (case trySend timerFirst (dataOutput output) (Data d) of
        Inl e \<Rightarrow> Inl e
      | Inr (c, err) \<Rightarrow> Inr (output\<lparr>dataOutput := c\<rparr>, err))"

definition sendError :: "bool \<Rightarrow> eventOutput \<Rightarrow> error \<Rightarrow> fault + (eventOutput \<times> error option)" where
  "sendError timerFirst output err =
     (case trySend timerFirst (errorOutput output) (Err err) of
        Inl e \<Rightarrow> Inl e
      | Inr (c, res) \<Rightarrow> Inr (output\<lparr>errorOutput := c\<rparr>, res))"

text \<open>The method \<open>close\<close> of an output: the result of \<open>sendError\<close> is dropped.\<close>

definition close :: "bool \<Rightarrow> eventOutput \<Rightarrow> error \<Rightarrow> fault + eventOutput" where
  "close timerFirst output err =
     (case sendError timerFirst output err of
        Inl e \<Rightarrow> Inl e
      | Inr (o1, res) \<Rightarrow>
          (case chanClose (dataOutput o1) of
             Inl e \<Rightarrow> Inl e
           | Inr d \<Rightarrow>
               (case chanClose (errorOutput o1) of
                  Inl e \<Rightarrow> Inl e
                | Inr c \<Rightarrow> Inr (o1\<lparr>dataOutput := d, errorOutput := c\<rparr>))))"

text \<open>
  \<open>UnsuscribeWithError\<close>. The closed output leaves the state with its entry. The
  send on the stop channel is a blocking send made while the lock is held: the fault
  \<open>Blocked\<close> is a call that waits until the dispatch loop receives from the stop
  channel, and that waits for ever when the caller is the loop.
\<close>

definition UnsuscribeWithError ::
  "bool \<Rightarrow> string \<Rightarrow> error \<Rightarrow> eventFanout \<Rightarrow> fault + ((bool \<times> error option) \<times> eventFanout)" where
  "UnsuscribeWithError timerFirst name err f =
     (case listeners f of
        None \<Rightarrow> Inr ((False, Some (notSuscribed name f)), f)
      | Some ls \<Rightarrow>
          (case map_of ls name of
             None \<Rightarrow> Inr ((False, Some (notSuscribed name f)), f)
           | Some output \<Rightarrow>
               (case close timerFirst output err of
                  Inl e \<Rightarrow> Inl e
                | Inr closedOutput \<Rightarrow>
                    if running f \<and> length (AList.delete name ls) = 0
                    then (case chanSend (stopChan f) Signal of
                            Inl e \<Rightarrow> Inl e
                          | Inr c \<Rightarrow>
                              Inr ((True, None),
                                   f\<lparr>listeners := Some (AList.delete name ls), stopChan := c\<rparr>))
                    else Inr ((False, None), f\<lparr>listeners := Some (AList.delete name ls)\<rparr>))))"

definition Unsuscribe ::
  "bool \<Rightarrow> string \<Rightarrow> eventFanout \<Rightarrow> fault + ((bool \<times> error option) \<times> eventFanout)" where
  "Unsuscribe timerFirst name f = UnsuscribeWithError timerFirst name EOF f"

subsection \<open>The dispatch loop\<close>

text \<open>The start of \<open>dispatch\<close>, before its loop.\<close>

definition dispatchEnter :: "eventFanout \<Rightarrow> eventFanout" where
  "dispatchEnter f = f\<lparr>running := True\<rparr>"

text \<open>The case of the \<open>select\<close> that one round of the loop takes.\<close>

datatype selected = StopSignal | DataItem nat | ErrorItem error

text \<open>
  The loop of the stop case: every listener is closed with \<open>io.EOF\<close> and deleted.
  \<open>timerFirst\<close> gives, per listener, the outcome of the timer's race.
\<close>

fun closeAll ::
  "(string \<Rightarrow> bool) \<Rightarrow> (string \<times> eventOutput) list \<Rightarrow> eventFanout \<Rightarrow> fault + eventFanout" where
  "closeAll timerFirst [] f = Inr f"
| "closeAll timerFirst ((name, output) # rest) f =
     (case close (timerFirst name) output EOF of
        Inl e \<Rightarrow> Inl e
      | Inr closedOutput \<Rightarrow>
          closeAll timerFirst rest
            (f\<lparr>listeners := map_option (AList.delete name) (listeners f)\<rparr>))"

text \<open>
  The stop case: it is taken when the stop channel holds a signal (or is closed).
  Otherwise the loop waits.
\<close>

definition onStop :: "(string \<Rightarrow> bool) \<Rightarrow> eventFanout \<Rightarrow> fault + eventFanout" where
  "onStop timerFirst f =
     (case stopChan f of
        None \<Rightarrow> Inl Blocked
      | Some c \<Rightarrow>
          if buf c = [] \<and> \<not> closed c then Inl Blocked
          else
            (case closeAll timerFirst (case listeners f of None \<Rightarrow> [] | Some ls \<Rightarrow> ls)
                    (f\<lparr>stopChan := Some (c\<lparr>buf := tl (buf c)\<rparr>)\<rparr>) of
               Inl e \<Rightarrow> Inl e
             | Inr f' \<Rightarrow> Inr (f'\<lparr>running := False\<rparr>)))"

text \<open>
  One broadcast: \<open>send\<close> is \<open>sendData\<close> or \<open>sendError\<close> with the item. The result is
  the listeners with their channels after the sends, and \<open>badListeners\<close>.
\<close>

fun broadcast ::
  "(string \<Rightarrow> bool) \<Rightarrow> (bool \<Rightarrow> eventOutput \<Rightarrow> fault + (eventOutput \<times> error option))
    \<Rightarrow> (string \<times> eventOutput) list
    \<Rightarrow> fault + ((string \<times> eventOutput) list \<times> (string \<times> error) list)" where
  "broadcast timerFirst send [] = Inr ([], [])"
| "broadcast timerFirst send ((name, output) # rest) =
     (case send (timerFirst name) output of
        Inl e \<Rightarrow> Inl e
      | Inr (output', err) \<Rightarrow>
          (case broadcast timerFirst send rest of
             Inl e \<Rightarrow> Inl e
           | Inr (rest', bad) \<Rightarrow>
               Inr ((name, output') # rest',
                    (case err of None \<Rightarrow> bad | Some e \<Rightarrow> (name, e) # bad))))"

text \<open>The loop over \<open>badListeners\<close>; what \<open>UnsuscribeWithError\<close> returns is dropped.\<close>

fun unsuscribeBad ::
  "(string \<Rightarrow> bool) \<Rightarrow> (string \<times> error) list \<Rightarrow> eventFanout \<Rightarrow> fault + eventFanout" where
  "unsuscribeBad timerFirst [] f = Inr f"
| "unsuscribeBad timerFirst ((name, err) # rest) f =
     (case UnsuscribeWithError (timerFirst name) name err f of
        Inl e \<Rightarrow> Inl e
      | Inr (res, f') \<Rightarrow> unsuscribeBad timerFirst rest f')"

definition transmit ::
  "(string \<Rightarrow> bool) \<Rightarrow> (string \<Rightarrow> bool)
    \<Rightarrow> (bool \<Rightarrow> eventOutput \<Rightarrow> fault + (eventOutput \<times> error option))
    \<Rightarrow> eventFanout \<Rightarrow> fault + eventFanout" where
  "transmit sendTimer closeTimer send f =
     (case listeners f of
        None \<Rightarrow> Inr f
      | Some ls \<Rightarrow>
          (case broadcast sendTimer send ls of
             Inl e \<Rightarrow> Inl e
           | Inr (ls', bad) \<Rightarrow> unsuscribeBad closeTimer bad (f\<lparr>listeners := Some ls'\<rparr>)))"

text \<open>
  One round of the loop of \<open>dispatch\<close>, for the case taken. A data or an error
  item is taken from a producer that sends on the input channel; a nil input channel
  never delivers. The result is the fan-out and whether \<open>dispatch\<close> has returned.
  With open input channels, a fault \<open>Blocked\<close> of a data or error round is a send of
  the loop itself on the stop channel, of which the loop is the only receiver.
\<close>

definition dispatchRound ::
  "(string \<Rightarrow> bool) \<Rightarrow> (string \<Rightarrow> bool) \<Rightarrow> selected \<Rightarrow> eventFanout \<Rightarrow> fault + (eventFanout \<times> bool)" where
  "dispatchRound sendTimer closeTimer sel f =
     (case sel of
        StopSignal \<Rightarrow>
          (case onStop closeTimer f of Inl e \<Rightarrow> Inl e | Inr f' \<Rightarrow> Inr (f', True))
      | DataItem d \<Rightarrow>
          if dataInput f = None then Inl Blocked
          else
            (case transmit sendTimer closeTimer (\<lambda>t output. sendData t output d) f of
               Inl e \<Rightarrow> Inl e
             | Inr f' \<Rightarrow> Inr (f', False))
      | ErrorItem err \<Rightarrow>
          if errorInput f = None then Inl Blocked
          else
            (case transmit sendTimer closeTimer (\<lambda>t output. sendError t output err) f of
               Inl e \<Rightarrow> Inl e
             | Inr f' \<Rightarrow> Inr (f', False)))"

subsection \<open>Notions used to state the fan-out's properties\<close>

text \<open>The channels of the output are open.\<close>

definition outputOpen :: "eventOutput \<Rightarrow> bool" where
  "outputOpen output = (\<not> closed (dataOutput output) \<and> \<not> closed (errorOutput output))"

text \<open>The stop channel as \<open>Setup\<close> makes it, with no signal pending.\<close>

definition stopChanEmpty :: "eventFanout \<Rightarrow> bool" where
  "stopChanEmpty f =
     (case stopChan f of
        None \<Rightarrow> False
      | Some c \<Rightarrow> buf c = [] \<and> cap c = 1 \<and> \<not> closed c)"

text \<open>
  Configurations, a runtime and timers of the examples. The runtime is that of a
  64-bit platform with an allocation limit of \<open>2 ^ 48\<close> bytes, a channel header of 96
  bytes, pointers of 8 bytes and interface values of 16 bytes.
\<close>

definition exampleRuntime :: goRuntime where
  "exampleRuntime = \<lparr>maxDataChan = 35184372088820, maxErrorChan = 17592186044410\<rparr>"

definition exampleConfig :: "int \<Rightarrow> int \<Rightarrow> fanoutConfig" where
  "exampleConfig timeout bufferSize =
     \<lparr>WriteTimeout = timeout, OutputBufferSize = bufferSize, Name = ''events''\<rparr>"

definition sendWins :: "string \<Rightarrow> bool" where
  "sendWins name = False"

text \<open>Running one call after another, as long as none panics or blocks.\<close>

definition andThen :: "fault + 'a \<Rightarrow> ('a \<Rightarrow> fault + 'b) \<Rightarrow> fault + 'b" where
  "andThen r k = (case r of Inl e \<Rightarrow> Inl e | Inr x \<Rightarrow> k x)"

text \<open>The fan-out after \<open>Setup\<close> with a write timeout of one second.\<close>

definition configured :: "int \<Rightarrow> eventFanout" where
  "configured bufferSize = snd (Setup (exampleConfig 1000000000 bufferSize) zeroFanout)"

text \<open>Then \<open>a\<close> subscribes, and the goroutine of \<open>dispatch\<close> starts.\<close>

definition oneListener :: "fault + eventFanout" where
  "oneListener =
     andThen (Suscribe exampleRuntime ''a'' (configured 1))
       (\<lambda>(res, f). Inr (dispatchEnter f))"

text \<open>
  Then one item is broadcast, which fills the buffer of \<open>a\<close>, and \<open>Stop\<close> is called
  before the loop takes its next case.
\<close>

definition pendingStop :: "fault + eventFanout" where
  "pendingStop =
     andThen oneListener (\<lambda>f.
       andThen (dispatchRound sendWins sendWins (DataItem 1) f) (\<lambda>(f', exited). Stop f'))"

text \<open>
  Without any \<open>Stop\<close>: \<open>a\<close> unsubscribes, which sends the stop signal; \<open>c\<close> subscribes
  before the loop takes the stop case; one item is broadcast, which fills the buffer
  of \<open>c\<close>.
\<close>

definition pendingAutoStop :: "fault + eventFanout" where
  "pendingAutoStop =
     andThen oneListener (\<lambda>f.
       andThen (Unsuscribe False ''a'' f) (\<lambda>(res, f1).
         andThen (Suscribe exampleRuntime ''c'' f1) (\<lambda>(outputs, f2).
           andThen (dispatchRound sendWins sendWins (DataItem 1) f2) (\<lambda>(f3, exited).
             Inr f3))))"

section \<open>Properties of the scanner\<close>

lemma fieldsFrom_nonempty: "x \<in> set (fieldsFrom f cur s) \<Longrightarrow> x \<noteq> []"
  by (induction s arbitrary: cur) (auto split: if_splits)

lemma two_parts_iff:
  assumes "\<forall>x \<in> set parts. x \<noteq> []"
  shows "(length parts = 2 \<and> labelValue L (parts ! 0) = parts ! 1)
         = (case parts of [k, v] \<Rightarrow> L k = Some v | _ \<Rightarrow> False)"
proof (cases parts)
  case Nil
  then show ?thesis by simp
next
  case (Cons k r)
  note outer = Cons
  show ?thesis
  proof (cases r)
    case Nil
    with outer show ?thesis by simp
  next
    case (Cons v r')
    show ?thesis
    proof (cases r')
      case Nil
      from assms outer Cons Nil have "v \<noteq> []" by simp
      with outer Cons Nil show ?thesis
        by (cases "L k") (auto simp: labelValue_def)
    next
      case (Cons a list)
      with outer \<open>r = v # r'\<close> show ?thesis by simp
    qed
  qed
qed

lemma labelsLoop_list_ex:
  "labelsLoop container vs = list_ex (spec_entry_matches container) (map TrimSpace vs)"
proof (induction vs)
  case Nil
  show ?case by simp
next
  case (Cons v vs)
  have ne: "\<forall>x \<in> set (FieldsFunc (TrimSpace v) isLabelSeparator). x \<noteq> []"
    using fieldsFrom_nonempty by (auto simp: FieldsFunc_def)
  show ?case
    using Cons.IH two_parts_iff [OF ne, of "c_Labels container"]
    by (simp add: spec_entry_matches_def)
qed

lemma keys_delete: "fst ` set (AList.delete k al) = fst ` set al - {k}"
proof -
  have "set (map fst (AList.delete k al)) = set (map fst al) - {k}"
    by (simp only: AList.delete_keys set_removeAll)
  then show ?thesis by simp
qed

lemma set_update_cases:
  "(k', v') \<in> set (AList.update k v al) \<Longrightarrow> (k', v') = (k, v) \<or> (k', v') \<in> set al"
  by (induction al) (auto split: if_splits)

lemma set_delete_subset: "set (AList.delete k al) \<subseteq> set al"
  by (auto simp: AList.delete_eq)

lemma tailersKeyed_iff: "tailersKeyed s \<longleftrightarrow> (\<forall>(k, tailer) \<in> set (tailers s). ContainerID tailer = k)"
  by (simp add: tailersKeyed_def list_all_iff)

lemma tailersKeyed_lookup:
  "tailersKeyed s \<Longrightarrow> map_of (tailers s) k = Some tailer \<Longrightarrow> ContainerID tailer = k"
  by (auto simp: tailersKeyed_iff dest: map_of_SomeD)

lemma stopTailer_keys: "fst ` set (tailers (stopTailer tailer s)) = fst ` set (tailers s) - {ContainerID tailer}"
  by (simp add: stopTailer_def keys_delete)

lemma stopTailer_keyed: "tailersKeyed s \<Longrightarrow> tailersKeyed (stopTailer tailer s)"
  using set_delete_subset [of "ContainerID tailer" "tailers s"]
  by (auto simp: tailersKeyed_iff stopTailer_def)

lemma stopTailer_frame:
  "sources (stopTailer tailer s) = sources s" "s_shouldStop (stopTailer tailer s) = s_shouldStop s"
  by (simp_all add: stopTailer_def)

lemma setupTailer_ok:
  assumes "12 \<le> length (c_ID container)"
  shows "\<exists>s'. setupTailer container source tfb s = Inr s'
           \<and> fst ` set (tailers s') = insert (c_ID container) (fst ` set (tailers s))
           \<and> (tailersKeyed s \<longrightarrow> tailersKeyed s')
           \<and> sources s' = sources s"
proof -
  let ?t = "(NewDockerTailer container source)\<lparr>t_fromBeginning := tfb\<rparr>"
  let ?s' = "s\<lparr>tailers := AList.update (c_ID container) ?t (tailers s)\<rparr>"
  have 1: "setupTailer container source tfb s = Inr ?s'"
    using assms by (simp add: setupTailer_def humanReadableContainerID_def)
  have 2: "fst ` set (tailers ?s') = insert (c_ID container) (fst ` set (tailers s))"
    by (simp add: AList.dom_update)
  have 3: "tailersKeyed s \<longrightarrow> tailersKeyed ?s'"
  proof
    assume k: "tailersKeyed s"
    show "tailersKeyed ?s'"
      unfolding tailersKeyed_iff
    proof (clarify)
      fix k' t' assume "(k', t') \<in> set (tailers ?s')"
      then have "(k', t') = (c_ID container, ?t) \<or> (k', t') \<in> set (tailers s)"
        using set_update_cases [of k' t' "c_ID container" ?t "tailers s"] by simp
      then show "ContainerID t' = k'"
        using k by (auto simp: tailersKeyed_iff NewDockerTailer_def)
    qed
  qed
  from 1 2 3 show ?thesis by simp
qed

lemma setupTailer_panics:
  "length (c_ID container) < 12 \<Longrightarrow> setupTailer container source tfb s = Inl SliceOutOfRange"
  by (simp add: setupTailer_def humanReadableContainerID_def)

lemma monitorContainer_ok:
  assumes "12 \<le> length (c_ID container)" and "tailersKeyed s"
  shows "\<exists>s'. monitorContainer tfb container source (m, s) = Inr (insert (c_ID container) m, s')
           \<and> fst ` set (tailers s') = insert (c_ID container) (fst ` set (tailers s))
           \<and> tailersKeyed s' \<and> sources s' = sources s"
proof (cases "map_of (tailers s) (c_ID container)")
  case None
  from setupTailer_ok [OF assms(1), of source tfb s] assms(2) None
  show ?thesis by (auto simp: monitorContainer_def)
next
  case (Some tailer)
  then have key: "c_ID container \<in> fst ` set (tailers s)"
    by (metis domI dom_map_of_conv_image_fst)
  show ?thesis
  proof (cases "t_shouldStop tailer")
    case False
    with Some key assms(2) show ?thesis
      by (auto simp: monitorContainer_def)
  next
    case True
    have cid: "ContainerID tailer = c_ID container"
      using tailersKeyed_lookup [OF assms(2) Some] .
    from setupTailer_ok [OF assms(1), of source tfb "stopTailer tailer s"]
    obtain s' where s': "setupTailer container source tfb (stopTailer tailer s) = Inr s'"
      "fst ` set (tailers s') = insert (c_ID container) (fst ` set (tailers (stopTailer tailer s)))"
      "tailersKeyed (stopTailer tailer s) \<longrightarrow> tailersKeyed s'"
      "sources s' = sources (stopTailer tailer s)" by blast
    have "fst ` set (tailers s') = insert (c_ID container) (fst ` set (tailers s))"
      using s'(2) key by (auto simp: stopTailer_keys cid)
    with s' Some True stopTailer_keyed [OF assms(2), of tailer] show ?thesis
      by (simp add: monitorContainer_def stopTailer_frame)
  qed
qed

lemma scanSources_ok:
  assumes "matched srcs container \<longrightarrow> 12 \<le> length (c_ID container)" and "tailersKeyed s"
  shows "\<exists>s'. scanSources tfb container srcs (m, s)
              = Inr (if matched srcs container then insert (c_ID container) m else m, s')
           \<and> fst ` set (tailers s')
              = (if matched srcs container then insert (c_ID container) (fst ` set (tailers s))
                 else fst ` set (tailers s))
           \<and> tailersKeyed s' \<and> sources s' = sources s"
  using assms
proof (induction srcs arbitrary: m s)
  case Nil
  then show ?case by (simp add: matched_def)
next
  case (Cons source rest)
  show ?case
  proof (cases "sourceShouldMonitorContainer source container")
    case False
    with Cons.IH [of s m] Cons.prems show ?thesis
      by (simp add: matched_def)
  next
    case True
    then have len: "12 \<le> length (c_ID container)"
      using Cons.prems(1) by (simp add: matched_def)
    from monitorContainer_ok [OF len Cons.prems(2), of tfb source m]
    obtain s1 where s1: "monitorContainer tfb container source (m, s) = Inr (insert (c_ID container) m, s1)"
      "fst ` set (tailers s1) = insert (c_ID container) (fst ` set (tailers s))"
      "tailersKeyed s1" "sources s1 = sources s" by blast
    from Cons.IH [of s1 "insert (c_ID container) m"] len s1(3)
    obtain s' where s': "scanSources tfb container rest (insert (c_ID container) m, s1)
              = Inr (if matched rest container then insert (c_ID container) (insert (c_ID container) m)
                     else insert (c_ID container) m, s')"
      "fst ` set (tailers s')
              = (if matched rest container then insert (c_ID container) (fst ` set (tailers s1))
                 else fst ` set (tailers s1))"
      "tailersKeyed s'" "sources s' = sources s1" by blast
    from True s1 s' show ?thesis
      by (simp add: matched_def)
  qed
qed

lemma scanContainers_ok:
  assumes "\<forall>c \<in> set containers. matched srcs c \<longrightarrow> 12 \<le> length (c_ID c)" and "tailersKeyed s"
  shows "\<exists>s'. scanContainers tfb containers srcs (m, s) = Inr (m \<union> monitored srcs containers, s')
           \<and> fst ` set (tailers s') = fst ` set (tailers s) \<union> monitored srcs containers
           \<and> tailersKeyed s' \<and> sources s' = sources s"
  using assms
proof (induction containers arbitrary: m s)
  case Nil
  then show ?case by (simp add: monitored_def)
next
  case (Cons c rest)
  from Cons.prems(1) have "matched srcs c \<longrightarrow> 12 \<le> length (c_ID c)" by simp
  from scanSources_ok [OF this Cons.prems(2), of tfb m]
  obtain s1 where s1: "scanSources tfb c srcs (m, s)
              = Inr (if matched srcs c then insert (c_ID c) m else m, s1)"
     "fst ` set (tailers s1)
              = (if matched srcs c then insert (c_ID c) (fst ` set (tailers s))
                 else fst ` set (tailers s))"
     "tailersKeyed s1" "sources s1 = sources s" by blast
  from Cons.prems(1) have rest: "\<forall>c \<in> set rest. matched srcs c \<longrightarrow> 12 \<le> length (c_ID c)" by simp
  from Cons.IH [OF rest s1(3), of "if matched srcs c then insert (c_ID c) m else m"]
  obtain s' where s': "scanContainers tfb rest srcs (if matched srcs c then insert (c_ID c) m else m, s1)
       = Inr ((if matched srcs c then insert (c_ID c) m else m) \<union> monitored srcs rest, s')"
     "fst ` set (tailers s') = fst ` set (tailers s1) \<union> monitored srcs rest"
     "tailersKeyed s'" "sources s' = sources s1" by blast
  have "scanContainers tfb (c # rest) srcs (m, s)
       = Inr ((if matched srcs c then insert (c_ID c) m else m) \<union> monitored srcs rest, s')"
    using s1(1) s'(1) by simp
  moreover have "(if matched srcs c then insert (c_ID c) m else m) \<union> monitored srcs rest
       = m \<union> monitored srcs (c # rest)"
    by (auto simp: monitored_def)
  moreover have "fst ` set (tailers s') = fst ` set (tailers s) \<union> monitored srcs (c # rest)"
    using s'(2) s1(2) by (auto simp: monitored_def)
  ultimately show ?case using s'(3,4) s1(4) by simp
qed

lemma stopOldContainers_keys:
  assumes "tailersKeyed s"
  shows "fst ` set (tailers (stopOldContainers ks m s)) = fst ` set (tailers s) - (set ks - m)
         \<and> tailersKeyed (stopOldContainers ks m s)
         \<and> sources (stopOldContainers ks m s) = sources s"
  using assms
proof (induction ks arbitrary: s)
  case Nil
  then show ?case by simp
next
  case (Cons k ks)
  show ?case
  proof (cases "map_of (tailers s) k")
    case None
    then have "k \<notin> fst ` set (tailers s)"
      by (metis domIff dom_map_of_conv_image_fst)
    with None Cons.IH [OF Cons.prems] show ?thesis by auto
  next
    case (Some tailer)
    have cid: "ContainerID tailer = k"
      using tailersKeyed_lookup [OF Cons.prems Some] .
    show ?thesis
    proof (cases "k \<in> m")
      case True
      with Some Cons.IH [OF Cons.prems] show ?thesis by auto
    next
      case False
      from Cons.IH [OF stopTailer_keyed [OF Cons.prems, of tailer]] Some False
      show ?thesis
        by (auto simp: stopTailer_keys cid stopTailer_frame)
    qed
  qed
qed

lemma matched_iff:
  "matched srcs container \<longleftrightarrow> (\<exists>source \<in> set srcs. sourceShouldMonitorContainer source container)"
  by (simp add: matched_def list_ex_iff)

lemma monitored_eq:
  "monitored srcs containers =
     {c_ID c |c. c \<in> set containers \<and> (\<exists>source \<in> set srcs. sourceShouldMonitorContainer source c)}"
  by (auto simp: monitored_def matched_iff)

lemma scanSources_panics:
  assumes "matched srcs container" and "length (c_ID container) < 12" and "needsTailer s container"
  shows "scanSources tfb container srcs (m, s) = Inl SliceOutOfRange"
  using assms(1)
proof (induction srcs)
  case Nil
  then show ?case by (simp add: matched_def)
next
  case (Cons source rest)
  show ?case
  proof (cases "sourceShouldMonitorContainer source container")
    case True
    have "monitorContainer tfb container source (m, s) = Inl SliceOutOfRange"
    proof (cases "map_of (tailers s) (c_ID container)")
      case None
      then show ?thesis
        by (simp add: monitorContainer_def setupTailer_panics [OF assms(2)])
    next
      case (Some tailer)
      with assms(3) have "t_shouldStop tailer" by (simp add: needsTailer_def)
      with Some show ?thesis
        by (simp add: monitorContainer_def setupTailer_panics [OF assms(2)])
    qed
    with True show ?thesis by simp
  next
    case False
    with Cons show ?thesis by (simp add: matched_def)
  qed
qed

subsection \<open>The match predicate\<close>

text \<open>
  Claim C2, as amended. \<open>sourceShouldMonitorContainer\<close> is a conjunction, not the
  three exclusive cases of the specification: the container matches exactly when the
  source's image filter is empty or equals the container's image, and the source's
  label filter is empty or one of its comma-separated, trimmed entries matches (the
  entry is a label key of the container, or it splits into exactly two parts on \<open>:\<close>
  or \<open>=\<close> and the container maps the first part to the second). In particular:
  the image filter \<open>nginx\<close> alone matches exactly the containers whose image is
  \<open>nginx\<close>; the label filter \<open>env:prod\<close> alone matches a container with the label
  \<open>env=prod\<close> and rejects one with \<open>env=staging\<close> that has no label key
  \<open>env:prod\<close>; the label filter \<open>foo\<close> alone matches exactly the containers with
  a label key \<open>foo\<close>; the label filter \<open>a:b, c\<close> alone matches exactly when one
  of its two entries matches.
\<close>

theorem sourceShouldMonitorContainer_decides:
  "(sourceShouldMonitorContainer source container \<longleftrightarrow>
      (cfg_Image (Config source) = [] \<or> c_Image container = cfg_Image (Config source))
      \<and> (cfg_Label (Config source) = []
         \<or> list_ex (spec_entry_matches container) (spec_entries (cfg_Label (Config source)))))
   \<and> (cfg_Image (Config source) = ''nginx'' \<and> cfg_Label (Config source) = [] \<longrightarrow>
        (sourceShouldMonitorContainer source container \<longleftrightarrow> c_Image container = ''nginx''))
   \<and> (cfg_Image (Config source) = [] \<and> cfg_Label (Config source) = ''env:prod'' \<longrightarrow>
        (c_Labels container ''env'' = Some ''prod'' \<longrightarrow>
           sourceShouldMonitorContainer source container)
        \<and> (c_Labels container ''env'' = Some ''staging'' \<and> c_Labels container ''env:prod'' = None \<longrightarrow>
           \<not> sourceShouldMonitorContainer source container))
   \<and> (cfg_Image (Config source) = [] \<and> cfg_Label (Config source) = ''foo'' \<longrightarrow>
        (sourceShouldMonitorContainer source container \<longleftrightarrow> c_Labels container ''foo'' \<noteq> None))
   \<and> (cfg_Image (Config source) = [] \<and> cfg_Label (Config source) = ''a:b, c'' \<longrightarrow>
        (sourceShouldMonitorContainer source container \<longleftrightarrow>
           c_Labels container ''a:b'' \<noteq> None \<or> c_Labels container ''a'' = Some ''b''
           \<or> c_Labels container ''c'' \<noteq> None))"
proof -
  have general: "sourceShouldMonitorContainer source container \<longleftrightarrow>
      (cfg_Image (Config source) = [] \<or> c_Image container = cfg_Image (Config source))
      \<and> (cfg_Label (Config source) = []
         \<or> list_ex (spec_entry_matches container) (spec_entries (cfg_Label (Config source))))"
    by (auto simp: sourceShouldMonitorContainer_def labelsLoop_list_ex spec_entries_def)
  have e1: "spec_entries ''env:prod'' = [''env:prod'']"
    by (simp add: spec_entries_def TrimSpace_def spaceWidth_def whiteSpace_def)
  have e2: "spec_entries ''foo'' = [''foo'']"
    by (simp add: spec_entries_def TrimSpace_def spaceWidth_def whiteSpace_def)
  have e3: "spec_entries ''a:b, c'' = [''a:b'', ''c'']"
    by (simp add: spec_entries_def TrimSpace_def spaceWidth_def whiteSpace_def)
  have f1: "FieldsFunc ''env:prod'' isLabelSeparator = [''env'', ''prod'']"
    by (simp add: FieldsFunc_def isLabelSeparator_def)
  have f2: "FieldsFunc ''foo'' isLabelSeparator = [''foo'']"
    by (simp add: FieldsFunc_def isLabelSeparator_def)
  have f3: "FieldsFunc ''a:b'' isLabelSeparator = [''a'', ''b'']"
    by (simp add: FieldsFunc_def isLabelSeparator_def)
  have f4: "FieldsFunc ''c'' isLabelSeparator = [''c'']"
    by (simp add: FieldsFunc_def isLabelSeparator_def)
  have nginx: "cfg_Image (Config source) = ''nginx'' \<and> cfg_Label (Config source) = [] \<longrightarrow>
        (sourceShouldMonitorContainer source container \<longleftrightarrow> c_Image container = ''nginx'')"
    by (simp add: general)
  have env: "cfg_Image (Config source) = [] \<and> cfg_Label (Config source) = ''env:prod'' \<longrightarrow>
        (c_Labels container ''env'' = Some ''prod'' \<longrightarrow>
           sourceShouldMonitorContainer source container)
        \<and> (c_Labels container ''env'' = Some ''staging'' \<and> c_Labels container ''env:prod'' = None \<longrightarrow>
           \<not> sourceShouldMonitorContainer source container)"
    by (simp add: general e1 f1 spec_entry_matches_def)
  have foo: "cfg_Image (Config source) = [] \<and> cfg_Label (Config source) = ''foo'' \<longrightarrow>
        (sourceShouldMonitorContainer source container \<longleftrightarrow> c_Labels container ''foo'' \<noteq> None)"
    by (simp add: general e2 f2 spec_entry_matches_def)
  have ab: "cfg_Image (Config source) = [] \<and> cfg_Label (Config source) = ''a:b, c'' \<longrightarrow>
        (sourceShouldMonitorContainer source container \<longleftrightarrow>
           c_Labels container ''a:b'' \<noteq> None \<or> c_Labels container ''a'' = Some ''b''
           \<or> c_Labels container ''c'' \<noteq> None)"
    by (simp add: general e3 f3 f4 spec_entry_matches_def)
  from general nginx env foo ab show ?thesis by blast
qed

theorem sourceShouldMonitorContainer_decides_witness:
  "sourceShouldMonitorContainer (filterSource ''nginx'' ''env:prod'')
       \<lparr>c_ID = ''0123456789abcdef'', c_Image = ''nginx'', c_Labels = [''env'' \<mapsto> ''prod'']\<rparr>
   \<and> \<not> sourceShouldMonitorContainer (filterSource ''nginx'' [])
       \<lparr>c_ID = ''0123456789abcdef'', c_Image = ''nginx:latest'', c_Labels = Map.empty\<rparr>
   \<and> sourceShouldMonitorContainer (filterSource [] ''env:prod'')
       \<lparr>c_ID = ''0123456789abcdef'', c_Image = ''redis'', c_Labels = [''env'' \<mapsto> ''prod'']\<rparr>
   \<and> \<not> sourceShouldMonitorContainer (filterSource [] ''env:prod'')
       \<lparr>c_ID = ''0123456789abcdef'', c_Image = ''redis'', c_Labels = [''env'' \<mapsto> ''staging'']\<rparr>
   \<and> sourceShouldMonitorContainer (filterSource [] ''foo'')
       \<lparr>c_ID = ''0123456789abcdef'', c_Image = ''redis'', c_Labels = [''foo'' \<mapsto> ''anything'']\<rparr>
   \<and> sourceShouldMonitorContainer (filterSource [] ''a:b, c'')
       \<lparr>c_ID = ''0123456789abcdef'', c_Image = ''redis'', c_Labels = [''c'' \<mapsto> ''1'']\<rparr>"
  using
    sourceShouldMonitorContainer_decides [of "filterSource ''nginx'' ''env:prod''"
       "\<lparr>c_ID = ''0123456789abcdef'', c_Image = ''nginx'', c_Labels = [''env'' \<mapsto> ''prod'']\<rparr>"]
    sourceShouldMonitorContainer_decides [of "filterSource ''nginx'' []"
       "\<lparr>c_ID = ''0123456789abcdef'', c_Image = ''nginx:latest'', c_Labels = Map.empty\<rparr>"]
    sourceShouldMonitorContainer_decides [of "filterSource [] ''env:prod''"
       "\<lparr>c_ID = ''0123456789abcdef'', c_Image = ''redis'', c_Labels = [''env'' \<mapsto> ''prod'']\<rparr>"]
    sourceShouldMonitorContainer_decides [of "filterSource [] ''env:prod''"
       "\<lparr>c_ID = ''0123456789abcdef'', c_Image = ''redis'', c_Labels = [''env'' \<mapsto> ''staging'']\<rparr>"]
    sourceShouldMonitorContainer_decides [of "filterSource [] ''foo''"
       "\<lparr>c_ID = ''0123456789abcdef'', c_Image = ''redis'', c_Labels = [''foo'' \<mapsto> ''anything'']\<rparr>"]
    sourceShouldMonitorContainer_decides [of "filterSource [] ''a:b, c''"
       "\<lparr>c_ID = ''0123456789abcdef'', c_Image = ''redis'', c_Labels = [''c'' \<mapsto> ''1'']\<rparr>"]
  by (simp add: filterSource_def spec_entries_def TrimSpace_def spaceWidth_def whiteSpace_def
      spec_entry_matches_def FieldsFunc_def isLabelSeparator_def)

text \<open>
  The claim as stated fails for a source with both filters: the specification's
  predicate stops at the image, the code goes on to test the labels.
\<close>

theorem image_and_label_counterexample:
  "spec_sourceShouldMonitorContainer (filterSource ''nginx'' ''env:prod'')
       \<lparr>c_ID = ''0123456789abcdef'', c_Image = ''nginx'', c_Labels = Map.empty\<rparr>
   \<and> \<not> sourceShouldMonitorContainer (filterSource ''nginx'' ''env:prod'')
       \<lparr>c_ID = ''0123456789abcdef'', c_Image = ''nginx'', c_Labels = Map.empty\<rparr>"
  by (simp add: sourceShouldMonitorContainer_def spec_sourceShouldMonitorContainer_def
      filterSource_def TrimSpace_def spaceWidth_def whiteSpace_def FieldsFunc_def
      isLabelSeparator_def labelValue_def)

subsection \<open>One reconciliation\<close>

text \<open>
  Claim C1, as amended. Let no stop be requested, let every tailer of the registry be
  stored under its own container ID (the only registries that \<open>setupTailer\<close> builds),
  and let every container that some source matches have an ID of at least 12 bytes.
  Then \<open>scan\<close> returns, and the keys of the registry are exactly the IDs of the
  listed containers that some source matches, whatever the registry held before; the
  registry still stores every tailer under its own container ID.
\<close>

theorem scan_converges:
  assumes "\<not> s_shouldStop s"
    and "tailersKeyed s"
    and "\<forall>c \<in> set containers.
           (\<exists>source \<in> set (sources s). sourceShouldMonitorContainer source c) \<longrightarrow>
           12 \<le> length (c_ID c)"
  shows "\<exists>s'. scan tailFromBeginning (Inr containers) s = Inr s'
           \<and> fst ` set (tailers s')
              = {c_ID c |c. c \<in> set containers
                   \<and> (\<exists>source \<in> set (sources s). sourceShouldMonitorContainer source c)}
           \<and> tailersKeyed s'"
proof -
  have long: "\<forall>c \<in> set containers. matched (sources s) c \<longrightarrow> 12 \<le> length (c_ID c)"
    using assms(3) by (simp add: matched_iff)
  from scanContainers_ok [OF long assms(2), of tailFromBeginning "{}"]
  obtain s1 where s1: "scanContainers tailFromBeginning containers (sources s) ({}, s)
        = Inr ({} \<union> monitored (sources s) containers, s1)"
     "fst ` set (tailers s1) = fst ` set (tailers s) \<union> monitored (sources s) containers"
     "tailersKeyed s1" by blast
  let ?s' = "stopOldContainers (map fst (tailers s1)) (monitored (sources s) containers) s1"
  have "scan tailFromBeginning (Inr containers) s = Inr ?s'"
    using assms(1) s1(1) by (simp add: scan_def listContainers_def)
  moreover have "fst ` set (tailers ?s') = monitored (sources s) containers"
    using stopOldContainers_keys [OF s1(3), of "map fst (tailers s1)" "monitored (sources s) containers"] s1(2)
    by auto
  moreover have "tailersKeyed ?s'"
    using stopOldContainers_keys [OF s1(3)] by blast
  ultimately show ?thesis by (simp add: monitored_eq)
qed

theorem scan_converges_witness:
  "\<exists>s'. scan True
          (Inr [\<lparr>c_ID = ''aaaaaaaaaaaa0001'', c_Image = ''nginx'', c_Labels = Map.empty\<rparr>,
                \<lparr>c_ID = ''bbbbbbbbbbbb0002'', c_Image = ''redis'', c_Labels = Map.empty\<rparr>,
                \<lparr>c_ID = ''dddddddddddd0004'', c_Image = ''nginx'', c_Labels = Map.empty\<rparr>])
          (idleScanner [filterSource ''nginx'' []]
             [(''cccccccccccc0003'', exTailer ''cccccccccccc0003'' False),
              (''dddddddddddd0004'', exTailer ''dddddddddddd0004'' True)])
        = Inr s'
      \<and> fst ` set (tailers s') = {''aaaaaaaaaaaa0001'', ''dddddddddddd0004''}"
proof -
  let ?cs = "[\<lparr>c_ID = ''aaaaaaaaaaaa0001'', c_Image = ''nginx'', c_Labels = Map.empty\<rparr>,
                \<lparr>c_ID = ''bbbbbbbbbbbb0002'', c_Image = ''redis'', c_Labels = Map.empty\<rparr>,
                \<lparr>c_ID = ''dddddddddddd0004'', c_Image = ''nginx'', c_Labels = Map.empty\<rparr>]"
  let ?s = "idleScanner [filterSource ''nginx'' []]
             [(''cccccccccccc0003'', exTailer ''cccccccccccc0003'' False),
              (''dddddddddddd0004'', exTailer ''dddddddddddd0004'' True)]"
  have h1: "\<not> s_shouldStop ?s" by (simp add: idleScanner_def)
  have h2: "tailersKeyed ?s" by (simp add: idleScanner_def tailersKeyed_def exTailer_def)
  have h3: "\<forall>c \<in> set ?cs.
           (\<exists>source \<in> set (sources ?s). sourceShouldMonitorContainer source c) \<longrightarrow>
           12 \<le> length (c_ID c)" by simp
  have m: "monitored (sources ?s) ?cs = {''aaaaaaaaaaaa0001'', ''dddddddddddd0004''}"
    by (simp add: monitored_def matched_def idleScanner_def filterSource_def
        sourceShouldMonitorContainer_def)
  have keys: "{c_ID c |c. c \<in> set ?cs
                   \<and> (\<exists>source \<in> set (sources ?s). sourceShouldMonitorContainer source c)}
      = {''aaaaaaaaaaaa0001'', ''dddddddddddd0004''}"
    by (rule trans [OF monitored_eq [symmetric] m])
  from scan_converges [OF h1 h2 h3, of True] show ?thesis
    unfolding keys by blast
qed

text \<open>
  The claim as stated fails for a matched container whose ID is shorter than 12
  bytes: the reconciliation panics and no tailer is registered.
\<close>

theorem scan_short_id_counterexample:
  "sourceShouldMonitorContainer (filterSource ''nginx'' [])
       \<lparr>c_ID = ''abc'', c_Image = ''nginx'', c_Labels = Map.empty\<rparr>
   \<and> scan True (Inr [\<lparr>c_ID = ''abc'', c_Image = ''nginx'', c_Labels = Map.empty\<rparr>])
        (idleScanner [filterSource ''nginx'' []] [])
      = Inl SliceOutOfRange"
  by (simp add: scan_def listContainers_def idleScanner_def filterSource_def
      sourceShouldMonitorContainer_def monitorContainer_def setupTailer_def
      humanReadableContainerID_def)

subsection \<open>Container IDs shorter than 12 bytes\<close>

text \<open>
  Claim C10. \<open>setupTailer\<close> panics with a slice out of range when the container's
  ID has fewer than 12 bytes, and stores a tailer under the ID otherwise. Hence a
  reconciliation panics when the first listed container has such an ID, is matched
  by a source and needs a tailer (it has none, or its tailer asked to be stopped).
\<close>

theorem setupTailer_needs_12_bytes:
  "(length (c_ID container) < 12 \<longrightarrow>
      setupTailer container source tailFromBeginning s = Inl SliceOutOfRange)
   \<and> (12 \<le> length (c_ID container) \<longrightarrow>
      (\<exists>s'. setupTailer container source tailFromBeginning s = Inr s'
         \<and> c_ID container \<in> fst ` set (tailers s')))
   \<and> (length (c_ID container) < 12 \<and> \<not> s_shouldStop s
        \<and> (\<exists>src \<in> set (sources s). sourceShouldMonitorContainer src container)
        \<and> needsTailer s container \<longrightarrow>
      scan tailFromBeginning (Inr (container # rest)) s = Inl SliceOutOfRange)"
proof -
  have a: "length (c_ID container) < 12 \<longrightarrow>
      setupTailer container source tailFromBeginning s = Inl SliceOutOfRange"
    by (simp add: setupTailer_panics)
  have b: "12 \<le> length (c_ID container) \<longrightarrow>
      (\<exists>s'. setupTailer container source tailFromBeginning s = Inr s'
         \<and> c_ID container \<in> fst ` set (tailers s'))"
    using setupTailer_ok [of container source tailFromBeginning s] by auto
  have c: "length (c_ID container) < 12 \<and> \<not> s_shouldStop s
        \<and> (\<exists>src \<in> set (sources s). sourceShouldMonitorContainer src container)
        \<and> needsTailer s container \<longrightarrow>
      scan tailFromBeginning (Inr (container # rest)) s = Inl SliceOutOfRange"
  proof
    assume h: "length (c_ID container) < 12 \<and> \<not> s_shouldStop s
        \<and> (\<exists>src \<in> set (sources s). sourceShouldMonitorContainer src container)
        \<and> needsTailer s container"
    then have "matched (sources s) container" by (simp add: matched_iff)
    from scanSources_panics [OF this, of s tailFromBeginning "{}"] h
    have "scanSources tailFromBeginning container (sources s) ({}, s) = Inl SliceOutOfRange"
      by simp
    with h show "scan tailFromBeginning (Inr (container # rest)) s = Inl SliceOutOfRange"
      by (simp add: scan_def listContainers_def)
  qed
  from a b c show ?thesis by blast
qed

theorem setupTailer_needs_12_bytes_witness:
  "setupTailer \<lparr>c_ID = ''0123456789a'', c_Image = ''redis'', c_Labels = Map.empty\<rparr>
       (filterSource [] []) False (idleScanner [filterSource [] []] [])
     = Inl SliceOutOfRange
   \<and> (\<exists>s'. setupTailer \<lparr>c_ID = ''0123456789ab'', c_Image = ''redis'', c_Labels = Map.empty\<rparr>
          (filterSource [] []) False (idleScanner [filterSource [] []] []) = Inr s'
        \<and> ''0123456789ab'' \<in> fst ` set (tailers s'))
   \<and> scan False
        (Inr [\<lparr>c_ID = ''0123456789a'', c_Image = ''redis'', c_Labels = Map.empty\<rparr>,
              \<lparr>c_ID = ''0123456789ab'', c_Image = ''redis'', c_Labels = Map.empty\<rparr>])
        (idleScanner [filterSource [] []] [])
     = Inl SliceOutOfRange"
  using
    setupTailer_needs_12_bytes [of "\<lparr>c_ID = ''0123456789a'', c_Image = ''redis'', c_Labels = Map.empty\<rparr>"
      "filterSource [] []" False "idleScanner [filterSource [] []] []"
      "[\<lparr>c_ID = ''0123456789ab'', c_Image = ''redis'', c_Labels = Map.empty\<rparr>]"]
    setupTailer_needs_12_bytes [of "\<lparr>c_ID = ''0123456789ab'', c_Image = ''redis'', c_Labels = Map.empty\<rparr>"
      "filterSource [] []" False "idleScanner [filterSource [] []] []" "[]"]
  by (simp add: idleScanner_def filterSource_def sourceShouldMonitorContainer_def needsTailer_def)

subsection \<open>Start\<close>

text \<open>
  What holds of \<open>Start\<close>: without sources, and with a client that exists although
  its construction reports an error, the loop is not launched and \<open>Start\<close> returns;
  the loop is launched exactly when \<open>setup\<close> returns no error.
\<close>

lemma Start_without_sources:
  "sources s = [] \<Longrightarrow>
   Start newEnvClient answer s = Inr (s, False)"
  by (simp add: Start_def scanner_setup_def)

lemma Start_client_error:
  "sources s \<noteq> [] \<Longrightarrow> newEnvClient = (Some c, Some err) \<Longrightarrow>
   \<exists>s'. Start newEnvClient answer s = Inr (s', False) \<and> tailers s' = tailers s"
  by (simp add: Start_def scanner_setup_def UpdateClientVersion_def)

lemma Start_launches_iff:
  "Start newEnvClient answer s = Inr (s', launch) \<Longrightarrow>
   launch \<longleftrightarrow> scanner_setup newEnvClient answer s = Inr (None, s')"
  by (auto simp: Start_def split: sum.splits)

text \<open>
  Claim C9 at the input where it fails. When \<open>client.NewEnvClient\<close> returns no
  client and an error, \<open>setup\<close> calls \<open>UpdateClientVersion\<close> on the nil client before
  it tests the error: \<open>Start\<close> panics instead of logging the error and returning.
\<close>

theorem Start_nil_client_panics:
  "Start (None, Some (ErrorString ''cannot connect to the Docker daemon'')) (Inr [])
     (New ''docker'' [filterSource [] []])
   = Inl NilDereference"
  by (simp add: Start_def scanner_setup_def New_def filterSource_def UpdateClientVersion_def)

section \<open>Properties of the file provider\<close>

lemma appendPaths_take:
  "length fs \<le> nat limit \<Longrightarrow>
   appendPaths limit i paths fs = take (nat limit) (fs @ map (\<lambda>p. NewFile p i) paths)"
proof (induction paths arbitrary: fs)
  case Nil
  then show ?case by simp
next
  case (Cons p paths)
  show ?case
  proof (cases "int (length fs) < limit")
    case True
    then have "length (fs @ [NewFile p i]) \<le> nat limit" by simp
    from Cons.IH [OF this] True show ?thesis by simp
  next
    case False
    with Cons.prems have "length fs = nat limit" by linarith
    with False show ?thesis by simp
  qed
qed

lemma filesLoop_files:
  "length fs \<le> nat limit \<Longrightarrow>
   fst (filesLoop glob limit seen todo fs)
     = take (nat limit) (fs @ allFiles glob (length seen) todo)"
proof (induction todo arbitrary: seen fs)
  case Nil
  then show ?case by simp
next
  case (Cons source rest)
  show ?case
  proof (cases "int (length fs) < limit")
    case False
    with Cons.prems have "length fs = nat limit" by linarith
    with False show ?thesis by simp
  next
    case True
    note room = True
    show ?thesis
    proof (cases "containsWildcards (cfg_Path (Config source))")
      case False
      from room have "length (fs @ [NewFile (cfg_Path (Config source)) (length seen)]) \<le> nat limit"
        by simp
      from Cons.IH [OF this, of "seen @ [source]"] room False show ?thesis
        by (simp add: filesOf_def)
    next
      case True
      note wild = True
      show ?thesis
      proof (cases "glob (cfg_Path (Config source))")
        case (Inl err)
        from Cons.IH [OF Cons.prems, of "seen @ [statusError (malformedPattern (cfg_Path (Config source))) source]"]
          room wild Inl
        show ?thesis by (simp add: filesOf_def)
      next
        case (Inr paths)
        show ?thesis
        proof (cases "paths = []")
          case True
          from Cons.IH [OF Cons.prems, of "seen @ [statusError (noFileMatching (cfg_Path (Config source))) source]"]
            room wild Inr True
          show ?thesis by (simp add: filesOf_def)
        next
          case False
          have ap: "appendPaths limit (length seen) paths fs
                  = take (nat limit) (fs @ map (\<lambda>p. NewFile p (length seen)) paths)"
            using appendPaths_take [OF Cons.prems] .
          have "length (appendPaths limit (length seen) paths fs) \<le> nat limit"
            by (simp add: ap)
          from Cons.IH [OF this, of "seen @ [source]"]
          have "fst (filesLoop glob limit (seen @ [source]) rest (appendPaths limit (length seen) paths fs))
                = take (nat limit) (take (nat limit) (fs @ map (\<lambda>p. NewFile p (length seen)) paths)
                                    @ allFiles glob (Suc (length seen)) rest)"
            by (simp add: ap)
          also have "\<dots> = take (nat limit) ((fs @ map (\<lambda>p. NewFile p (length seen)) paths)
                                    @ allFiles glob (Suc (length seen)) rest)"
            by (simp add: take_append min_def) 
          finally show ?thesis using room wild Inr False
            by (simp add: filesOf_def)
        qed
      qed
    qed
  qed
qed

lemma FilesToTail_files:
  "fst (FilesToTail glob r) = take (nat (filesLimit r)) (allFiles glob 0 (fp_sources r))"
  using filesLoop_files [of "[]" "filesLimit r" glob "[]" "fp_sources r"]
  by (simp add: FilesToTail_def)

lemma filesLoop_prefix:
  "int (length (fs @ allFiles glob (length seen) pre)) < limit \<Longrightarrow>
   filesLoop glob limit seen (pre @ rest) fs
     = filesLoop glob limit (seen @ map (visited glob) pre) rest
         (fs @ allFiles glob (length seen) pre)"
proof (induction pre arbitrary: seen fs)
  case Nil
  then show ?case by simp
next
  case (Cons source pre)
  from Cons.prems have room: "int (length fs) < limit" by simp
  show ?case
  proof (cases "containsWildcards (cfg_Path (Config source))")
    case False
    from Cons.prems False
    have "int (length ((fs @ [NewFile (cfg_Path (Config source)) (length seen)])
                    @ allFiles glob (length (seen @ [source])) pre)) < limit"
      by (simp add: filesOf_def)
    from Cons.IH [OF this] room False show ?thesis
      by (simp add: filesOf_def visited_def expansionFails_def)
  next
    case True
    note wild = True
    show ?thesis
    proof (cases "glob (cfg_Path (Config source))")
      case (Inl err)
      let ?src = "statusError (malformedPattern (cfg_Path (Config source))) source"
      from Cons.prems wild Inl
      have "int (length (fs @ allFiles glob (length (seen @ [?src])) pre)) < limit"
        by (simp add: filesOf_def)
      from Cons.IH [OF this] room wild Inl show ?thesis
        by (simp add: filesOf_def visited_def expansionFails_def expansionError_def)
    next
      case (Inr paths)
      show ?thesis
      proof (cases "paths = []")
        case True
        let ?src = "statusError (noFileMatching (cfg_Path (Config source))) source"
        from Cons.prems wild Inr True
        have "int (length (fs @ allFiles glob (length (seen @ [?src])) pre)) < limit"
          by (simp add: filesOf_def)
        from Cons.IH [OF this] room wild Inr True show ?thesis
          by (simp add: filesOf_def visited_def expansionFails_def expansionError_def)
      next
        case False
        from Cons.prems wild Inr
        have len: "int (length (fs @ map (\<lambda>p. NewFile p (length seen)) paths)) < limit"
          by (simp add: filesOf_def)
        from room have "length fs \<le> nat limit" by simp
        from appendPaths_take [OF this, of "length seen" paths] len
        have ap: "appendPaths limit (length seen) paths fs
                  = fs @ map (\<lambda>p. NewFile p (length seen)) paths"
          by simp
        from Cons.prems wild Inr
        have "int (length ((fs @ map (\<lambda>p. NewFile p (length seen)) paths)
                    @ allFiles glob (length (seen @ [source])) pre)) < limit"
          by (simp add: filesOf_def)
        from Cons.IH [OF this] room wild Inr False ap show ?thesis
          by (simp add: filesOf_def visited_def expansionFails_def)
      qed
    qed
  qed
qed

lemma filesLoop_sources:
  "\<exists>ys. snd (filesLoop glob limit seen todo fs) = seen @ ys \<and> length ys = length todo"
proof (induction todo arbitrary: seen fs)
  case Nil
  show ?case by simp
next
  case (Cons source rest)
  have step: "\<exists>ys. snd (filesLoop glob limit (seen @ [x]) rest fs') = seen @ ys
                 \<and> length ys = length (source # rest)" for x fs'
  proof -
    from Cons.IH [of "seen @ [x]" fs']
    obtain ys where "snd (filesLoop glob limit (seen @ [x]) rest fs') = (seen @ [x]) @ ys"
      "length ys = length rest" by blast
    then have "snd (filesLoop glob limit (seen @ [x]) rest fs') = seen @ (x # ys)
               \<and> length (x # ys) = length (source # rest)" by simp
    then show ?thesis by blast
  qed
  show ?case
  proof (cases "int (length fs) < limit")
    case False
    then show ?thesis by simp
  next
    case True
    note room = True
    show ?thesis
    proof (cases "containsWildcards (cfg_Path (Config source))")
      case False
      with room step [of source "fs @ [NewFile (cfg_Path (Config source)) (length seen)]"]
      show ?thesis by simp
    next
      case True
      note wild = True
      show ?thesis
      proof (cases "glob (cfg_Path (Config source))")
        case (Inl err)
        with room wild
          step [of "statusError (malformedPattern (cfg_Path (Config source))) source" fs]
        show ?thesis by simp
      next
        case (Inr paths)
        show ?thesis
        proof (cases "paths = []")
          case True
          with room wild Inr
            step [of "statusError (noFileMatching (cfg_Path (Config source))) source" fs]
          show ?thesis by simp
        next
          case False
          with room wild Inr
            step [of source "appendPaths limit (length seen) paths fs"]
          show ?thesis by simp
        qed
      qed
    qed
  qed
qed

lemma filesLoop_sources_nth:
  "snd (filesLoop glob limit (seen @ [x]) todo fs) ! length seen = x"
proof -
  from filesLoop_sources [of glob limit "seen @ [x]" todo fs]
  obtain ys where "snd (filesLoop glob limit (seen @ [x]) todo fs) = (seen @ [x]) @ ys" by blast
  then show ?thesis by (simp add: nth_append)
qed

lemma allFiles_sources:
  "f \<in> set (allFiles glob i srcs) \<Longrightarrow> i \<le> f_Source f \<and> f_Source f < i + length srcs"
proof (induction srcs arbitrary: i)
  case Nil
  then show ?case by simp
next
  case (Cons source rest)
  from Cons.prems have "f \<in> set (filesOf glob i source) \<or> f \<in> set (allFiles glob (Suc i) rest)"
    by simp
  then show ?case
  proof
    assume "f \<in> set (filesOf glob i source)"
    then have "f_Source f = i"
      by (auto simp: filesOf_def NewFile_def split: if_splits sum.splits)
    then show ?thesis by simp
  next
    assume "f \<in> set (allFiles glob (Suc i) rest)"
    from Cons.IH [OF this] show ?thesis by simp
  qed
qed

lemma allFiles_append:
  "allFiles glob i (xs @ ys) = allFiles glob i xs @ allFiles glob (i + length xs) ys"
  by (induction xs arbitrary: i) simp_all

lemma filesOf_fails: "expansionFails glob source \<Longrightarrow> filesOf glob i source = []"
  by (auto simp: expansionFails_def filesOf_def split: sum.splits)

lemma filesLoop_failing_step:
  assumes "expansionFails glob source" and "int (length fs) < limit"
  shows "filesLoop glob limit seen (source # post) fs
         = filesLoop glob limit (seen @ [statusError (expansionError glob source) source]) post fs"
proof (cases "glob (cfg_Path (Config source))")
  case (Inl err)
  with assms show ?thesis
    by (simp add: expansionFails_def expansionError_def)
next
  case (Inr paths)
  with assms have "paths = []" by (simp add: expansionFails_def)
  with Inr assms show ?thesis
    by (simp add: expansionFails_def expansionError_def)
qed

lemma FilesToTail_sources_length:
  "length (snd (FilesToTail glob r)) = length (fp_sources r)"
proof -
  from filesLoop_sources [of glob "filesLimit r" "[]" "fp_sources r" "[]"]
  obtain ys where "snd (filesLoop glob (filesLimit r) [] (fp_sources r) []) = [] @ ys"
    "length ys = length (fp_sources r)" by blast
  then show ?thesis by (simp add: FilesToTail_def)
qed

subsection \<open>The limit on the number of files\<close>

text \<open>
  Claim C3. For a limit \<open>N \<ge> 0\<close>, any sources and any file system, \<open>FilesToTail\<close>
  returns at most \<open>N\<close> files, and they are the first \<open>N\<close> of the files that the
  sources offer, taken source by source in the list's order and, within one
  expansion, in the order reported: appending stops when the count reaches \<open>N\<close>,
  also in the middle of an expansion.
\<close>

theorem FilesToTail_limit:
  assumes "0 \<le> N"
  shows "int (length (fst (FilesToTail glob (NewFileProvider srcs N)))) \<le> N
         \<and> fst (FilesToTail glob (NewFileProvider srcs N)) = take (nat N) (allFiles glob 0 srcs)"
  using assms by (simp add: FilesToTail_files NewFileProvider_def)

theorem FilesToTail_limit_witness:
  "int (length (fst (FilesToTail exampleGlob
          (NewFileProvider [fileSource ''/var/log/syslog'', fileSource ''/var/log/app/*.log'',
                            fileSource ''/var/log/auth.log''] 3)))) \<le> 3
   \<and> fst (FilesToTail exampleGlob
          (NewFileProvider [fileSource ''/var/log/syslog'', fileSource ''/var/log/app/*.log'',
                            fileSource ''/var/log/auth.log''] 3))
     = [NewFile ''/var/log/syslog'' 0, NewFile ''/var/log/app/a.log'' 1,
        NewFile ''/var/log/app/b.log'' 1]"
  using FilesToTail_limit [of 3 exampleGlob "[fileSource ''/var/log/syslog'',
       fileSource ''/var/log/app/*.log'', fileSource ''/var/log/auth.log'']"]
  by (simp add: fileSource_def exampleGlob_def filesOf_def containsWildcards_def)

subsection \<open>A pattern that fails or matches nothing\<close>

text \<open>
  Claim C8, as amended. Let the source at some position of the list be wildcarded
  with an expansion that fails or finds nothing, and let the sources before it offer
  fewer files than the limit, so that the loop reaches it. Then \<open>FilesToTail\<close>
  reports exactly one error to that source's sink, returns no file of that source, and
  returns the first files, up to the limit, that the other sources offer: the sources
  after it are processed as if it were absent.
\<close>

theorem failed_expansion_is_skipped:
  assumes "expansionFails glob source"
    and "int (length (allFiles glob 0 pre)) < limit"
  shows "Status (snd (FilesToTail glob (NewFileProvider (pre @ source # post) limit)) ! length pre)
           = Status source @ [expansionError glob source]
         \<and> length (snd (FilesToTail glob (NewFileProvider (pre @ source # post) limit)))
           = length (pre @ source # post)
         \<and> (\<forall>f \<in> set (fst (FilesToTail glob (NewFileProvider (pre @ source # post) limit))).
              f_Source f \<noteq> length pre)
         \<and> fst (FilesToTail glob (NewFileProvider (pre @ source # post) limit))
           = take (nat limit) (allFiles glob 0 pre @ allFiles glob (Suc (length pre)) post)"
proof -
  let ?r = "NewFileProvider (pre @ source # post) limit"
  let ?fs = "allFiles glob 0 pre"
  let ?src = "statusError (expansionError glob source) source"
  have r: "fp_sources ?r = pre @ source # post" "filesLimit ?r = limit"
    by (simp_all add: NewFileProvider_def)
  have "FilesToTail glob ?r = filesLoop glob limit [] (pre @ source # post) []"
    by (simp add: FilesToTail_def r)
  also have "\<dots> = filesLoop glob limit (map (visited glob) pre) (source # post) ?fs"
    using filesLoop_prefix [of "[]" glob "[]" pre limit "source # post"] assms(2)
    by simp
  also have "\<dots> = filesLoop glob limit (map (visited glob) pre @ [?src]) post ?fs"
    by (rule filesLoop_failing_step [OF assms])
  finally have run: "FilesToTail glob ?r
      = filesLoop glob limit (map (visited glob) pre @ [?src]) post ?fs" .
  have "snd (filesLoop glob limit (map (visited glob) pre @ [?src]) post ?fs)
          ! length (map (visited glob) pre) = ?src"
    by (rule filesLoop_sources_nth)
  then have "snd (FilesToTail glob ?r) ! length pre = ?src"
    by (simp only: run length_map)
  then have a: "Status (snd (FilesToTail glob ?r) ! length pre)
           = Status source @ [expansionError glob source]"
    by (simp add: statusError_def)
  have b: "length (snd (FilesToTail glob ?r)) = length (pre @ source # post)"
    by (simp only: FilesToTail_sources_length r)
  have "allFiles glob 0 (pre @ source # post)
        = allFiles glob 0 pre @ allFiles glob (Suc (length pre)) post"
    using filesOf_fails [OF assms(1)] by (simp add: allFiles_append)
  then have d: "fst (FilesToTail glob ?r)
           = take (nat limit) (allFiles glob 0 pre @ allFiles glob (Suc (length pre)) post)"
    by (simp only: FilesToTail_files r)
  have c: "\<forall>f \<in> set (fst (FilesToTail glob ?r)). f_Source f \<noteq> length pre"
  proof
    fix f assume "f \<in> set (fst (FilesToTail glob ?r))"
    then have "f \<in> set (allFiles glob 0 pre @ allFiles glob (Suc (length pre)) post)"
      by (simp only: d) (rule in_set_takeD)
    then have "f \<in> set (allFiles glob 0 pre) \<or> f \<in> set (allFiles glob (Suc (length pre)) post)"
      by simp
    then show "f_Source f \<noteq> length pre"
      using allFiles_sources [of f glob 0 pre] allFiles_sources [of f glob "Suc (length pre)" post]
      by auto
  qed
  from a b c d show ?thesis by (intro conjI)
qed

theorem failed_expansion_is_skipped_witness:
  "Status (snd (FilesToTail exampleGlob
        (NewFileProvider ([fileSource ''/var/log/syslog''] @ fileSource ''/var/log/['' #
            [fileSource ''/none/*.log'', fileSource ''/var/log/app/*.log'']) 10)) ! 1)
     = [malformedPattern ''/var/log/['']
   \<and> fst (FilesToTail exampleGlob
        (NewFileProvider ([fileSource ''/var/log/syslog''] @ fileSource ''/var/log/['' #
            [fileSource ''/none/*.log'', fileSource ''/var/log/app/*.log'']) 10))
     = [NewFile ''/var/log/syslog'' 0, NewFile ''/var/log/app/a.log'' 3,
        NewFile ''/var/log/app/b.log'' 3, NewFile ''/var/log/app/c.log'' 3]"
proof -
  have h1: "expansionFails exampleGlob (fileSource ''/var/log/['')"
    by (simp add: expansionFails_def fileSource_def exampleGlob_def containsWildcards_def)
  have h2: "int (length (allFiles exampleGlob 0 [fileSource ''/var/log/syslog''])) < 10"
    by (simp add: filesOf_def fileSource_def containsWildcards_def)
  have e: "expansionError exampleGlob (fileSource ''/var/log/['') = malformedPattern ''/var/log/[''"
    by (simp add: expansionError_def fileSource_def exampleGlob_def)
  have s: "Status (fileSource ''/var/log/['') = []"
    by (simp add: fileSource_def)
  note T = failed_expansion_is_skipped [OF h1 h2,
      of "[fileSource ''/none/*.log'', fileSource ''/var/log/app/*.log'']"]
  from T have A: "Status (snd (FilesToTail exampleGlob
        (NewFileProvider ([fileSource ''/var/log/syslog''] @ fileSource ''/var/log/['' #
            [fileSource ''/none/*.log'', fileSource ''/var/log/app/*.log'']) 10))
          ! length [fileSource ''/var/log/syslog''])
     = Status (fileSource ''/var/log/['') @ [expansionError exampleGlob (fileSource ''/var/log/['')]"
    by (rule conjunct1)
  from T have D: "fst (FilesToTail exampleGlob
        (NewFileProvider ([fileSource ''/var/log/syslog''] @ fileSource ''/var/log/['' #
            [fileSource ''/none/*.log'', fileSource ''/var/log/app/*.log'']) 10))
     = take (nat 10) (allFiles exampleGlob 0 [fileSource ''/var/log/syslog'']
              @ allFiles exampleGlob (Suc (length [fileSource ''/var/log/syslog'']))
                  [fileSource ''/none/*.log'', fileSource ''/var/log/app/*.log''])"
    by (rule conjunct2 [OF conjunct2 [OF conjunct2]])
  have f: "take (nat 10) (allFiles exampleGlob 0 [fileSource ''/var/log/syslog'']
              @ allFiles exampleGlob (Suc (length [fileSource ''/var/log/syslog'']))
                  [fileSource ''/none/*.log'', fileSource ''/var/log/app/*.log''])
           = [NewFile ''/var/log/syslog'' 0, NewFile ''/var/log/app/a.log'' 3,
              NewFile ''/var/log/app/b.log'' 3, NewFile ''/var/log/app/c.log'' 3]"
    by (simp add: filesOf_def fileSource_def exampleGlob_def containsWildcards_def
        eval_nat_numeral)
  have a: "Status (snd (FilesToTail exampleGlob
        (NewFileProvider ([fileSource ''/var/log/syslog''] @ fileSource ''/var/log/['' #
            [fileSource ''/none/*.log'', fileSource ''/var/log/app/*.log'']) 10)) ! 1)
     = [malformedPattern ''/var/log/['']"
    using A by (simp add: e s)
  show ?thesis
    using a D f by (simp only: simp_thms)
qed

text \<open>
  The claim as stated fails when the limit is reached before the source's turn: the
  loop ends, and the source's sink receives no error.
\<close>

theorem limit_reached_counterexample:
  "expansionFails exampleGlob (fileSource ''/none/*.log'')
   \<and> FilesToTail exampleGlob
        (NewFileProvider [fileSource ''/var/log/syslog'', fileSource ''/none/*.log''] 1)
     = ([NewFile ''/var/log/syslog'' 0],
        [fileSource ''/var/log/syslog'', fileSource ''/none/*.log''])
   \<and> Status (fileSource ''/none/*.log'') = []"
  by (simp add: expansionFails_def FilesToTail_def NewFileProvider_def fileSource_def
      exampleGlob_def containsWildcards_def)

section \<open>Properties of the fan-out\<close>

lemmas fanout_eval =
  configured_def andThen_def oneListener_def pendingStop_def Setup_def exampleConfig_def
  zeroFanout_def Suscribe_def found_def makeChan_def dispatchEnter_def dispatchRound_def
  exampleRuntime_def pendingAutoStop_def
  transmit_def sendData_def sendError_def trySend_def sendWins_def Stop_def chanSend_def
  UnsuscribeWithError_def Unsuscribe_def close_def chanClose_def onStop_def
  alreadySuscribed_def notSuscribed_def

subsection \<open>Setup\<close>

text \<open>
  Claim C4 at an input where it fails. \<open>Setup\<close> tests the write timeout and the
  buffer size against zero only, so a write timeout of \<open>-1\<close> nanosecond passes: \<open>Setup\<close>
  returns the two input channels and no error, and stores the configuration.
\<close>

theorem Setup_accepts_negative_timeout:
  "Setup (exampleConfig (- 1) 1) zeroFanout
   = ((Some \<lparr>ch_id = 0, cap = 0, buf = [], closed = False\<rparr>,
       Some \<lparr>ch_id = 1, cap = 0, buf = [], closed = False\<rparr>,
       None),
      zeroFanout\<lparr>config := exampleConfig (- 1) 1,
        dataInput := Some \<lparr>ch_id = 0, cap = 0, buf = [], closed = False\<rparr>,
        errorInput := Some \<lparr>ch_id = 1, cap = 0, buf = [], closed = False\<rparr>,
        stopChan := Some \<lparr>ch_id = 2, cap = 1, buf = [], closed = False\<rparr>,
        listeners := Some [],
        allocated := 3\<rparr>)"
  by (simp add: Setup_def exampleConfig_def zeroFanout_def)

text \<open>What \<open>Setup\<close> does check: each of the three fields against its zero value.\<close>

lemma zero_field_rejected:
  "WriteTimeout cfg = 0 \<or> OutputBufferSize cfg = 0 \<or> Name cfg = []
   \<Longrightarrow> \<exists>err. Setup cfg f = ((None, None, Some err), f)"
  by (auto simp: Setup_def)

lemma nonzero_fields_accepted:
  assumes "WriteTimeout cfg \<noteq> 0" and "OutputBufferSize cfg \<noteq> 0" and "Name cfg \<noteq> []"
  shows "\<exists>f'. Setup cfg f = ((dataInput f', errorInput f', None), f')
          \<and> config f' = cfg \<and> listeners f' = Some []
          \<and> (\<exists>d e s. dataInput f' = Some d \<and> errorInput f' = Some e \<and> stopChan f' = Some s
                \<and> cap d = 0 \<and> cap e = 0 \<and> cap s = 1
                \<and> buf d = [] \<and> buf e = [] \<and> buf s = []
                \<and> \<not> closed d \<and> \<not> closed e \<and> \<not> closed s)"
  using assms by (simp add: Setup_def)

subsection \<open>Misuse of the protocol\<close>

text \<open>
  Claim C7. \<open>Suscribe\<close> with a name that is subscribed, and \<open>Unsuscribe\<close> or
  \<open>UnsuscribeWithError\<close> with a name that is not, return an error and leave the
  fan-out as it was: the result state is the state of the call.
\<close>

theorem misuse_leaves_state:
  "(found name f \<longrightarrow>
      Suscribe rt name f = Inr ((None, None, Some (alreadySuscribed name f)), f))
   \<and> (\<not> found name f \<longrightarrow>
      UnsuscribeWithError timerFirst name err f
        = Inr ((False, Some (notSuscribed name f)), f)
      \<and> Unsuscribe timerFirst name f = Inr ((False, Some (notSuscribed name f)), f))"
  by (simp add: Suscribe_def UnsuscribeWithError_def Unsuscribe_def found_def
      split: option.splits)

theorem misuse_leaves_state_witness:
  "\<exists>f. oneListener = Inr f \<and> found ''a'' f \<and> \<not> found ''b'' f
     \<and> Suscribe exampleRuntime ''a'' f
         = Inr ((None, None, Some (alreadySuscribed ''a'' f)), f)
     \<and> UnsuscribeWithError False ''b'' ErrWriteTimeout f
         = Inr ((False, Some (notSuscribed ''b'' f)), f)
     \<and> Unsuscribe False ''b'' f = Inr ((False, Some (notSuscribed ''b'' f)), f)"
proof -
  obtain f where f: "oneListener = Inr f" and a: "found ''a'' f" and b: "\<not> found ''b'' f"
    by (simp add: fanout_eval)
  from misuse_leaves_state [where name = "''a''" and f = f and rt = exampleRuntime]
    misuse_leaves_state [where name = "''b''" and f = f and timerFirst = False
      and err = ErrWriteTimeout] f a b
  show ?thesis by blast
qed

subsection \<open>Suscribe\<close>

text \<open>
  Claim C5, as amended. On a fan-out whose subscription mapping exists (after
  \<open>Setup\<close>) and whose configured buffer size is not negative and not beyond what
  the runtime allocates, \<open>Suscribe\<close> with a name that is not subscribed stores a new
  subscription and returns its two outputs: the data output is an open, empty channel
  buffered to the configured size, the error output an open, empty channel buffered to
  2, whatever the configured size, and the write timeout is the configured one; the
  other subscriptions stay, and a dispatch goroutine is started when the fan-out is
  not running. With a name that is subscribed \<open>Suscribe\<close> returns an error.
\<close>

theorem Suscribe_stores_output:
  assumes "listeners f = Some ls"
    and "0 \<le> OutputBufferSize (config f)"
    and "OutputBufferSize (config f) \<le> maxDataChan rt"
    and "2 \<le> maxErrorChan rt"
  shows "(map_of ls name = None \<longrightarrow>
            (\<exists>output f'.
               Suscribe rt name f
                 = Inr ((Some (dataOutput output), Some (errorOutput output), None), f')
               \<and> (\<exists>ls'. listeners f' = Some ls' \<and> map_of ls' = (map_of ls)(name \<mapsto> output))
               \<and> cap (dataOutput output) = nat (OutputBufferSize (config f))
               \<and> buf (dataOutput output) = [] \<and> \<not> closed (dataOutput output)
               \<and> cap (errorOutput output) = 2
               \<and> buf (errorOutput output) = [] \<and> \<not> closed (errorOutput output)
               \<and> writeTimeout output = WriteTimeout (config f)
               \<and> launched f' = (if running f then launched f else Suc (launched f))
               \<and> running f' = running f))
         \<and> (map_of ls name \<noteq> None \<longrightarrow>
              Suscribe rt name f = Inr ((None, None, Some (alreadySuscribed name f)), f))"
proof -
  have dup: "map_of ls name \<noteq> None \<longrightarrow>
              Suscribe rt name f = Inr ((None, None, Some (alreadySuscribed name f)), f)"
    using assms(1) by (simp add: Suscribe_def found_def)
  have new: "map_of ls name = None \<longrightarrow>
            (\<exists>output f'.
               Suscribe rt name f
                 = Inr ((Some (dataOutput output), Some (errorOutput output), None), f')
               \<and> (\<exists>ls'. listeners f' = Some ls' \<and> map_of ls' = (map_of ls)(name \<mapsto> output))
               \<and> cap (dataOutput output) = nat (OutputBufferSize (config f))
               \<and> buf (dataOutput output) = [] \<and> \<not> closed (dataOutput output)
               \<and> cap (errorOutput output) = 2
               \<and> buf (errorOutput output) = [] \<and> \<not> closed (errorOutput output)
               \<and> writeTimeout output = WriteTimeout (config f)
               \<and> launched f' = (if running f then launched f else Suc (launched f))
               \<and> running f' = running f)"
  proof
    assume none: "map_of ls name = None"
    let ?d = "\<lparr>ch_id = allocated f, cap = nat (OutputBufferSize (config f)), buf = [], closed = False\<rparr>"
    let ?e = "\<lparr>ch_id = Suc (allocated f), cap = 2, buf = [], closed = False\<rparr>"
    let ?out = "\<lparr>dataOutput = ?d, errorOutput = ?e, writeTimeout = WriteTimeout (config f)\<rparr>"
    let ?f' = "f\<lparr>allocated := Suc (Suc (allocated f)),
                 listeners := Some (AList.update name ?out ls),
                 launched := (if running f then launched f else Suc (launched f))\<rparr>"
    have run: "Suscribe rt name f = Inr ((Some ?d, Some ?e, None), ?f')"
      using assms none by (simp add: Suscribe_def found_def makeChan_def)
    have "listeners ?f' = Some (AList.update name ?out ls)
          \<and> map_of (AList.update name ?out ls) = (map_of ls)(name \<mapsto> ?out)"
      by (simp add: AList.update_conv')
    then have ex: "\<exists>ls'. listeners ?f' = Some ls' \<and> map_of ls' = (map_of ls)(name \<mapsto> ?out)"
      by blast
    have "Suscribe rt name f
                 = Inr ((Some (dataOutput ?out), Some (errorOutput ?out), None), ?f')
               \<and> (\<exists>ls'. listeners ?f' = Some ls' \<and> map_of ls' = (map_of ls)(name \<mapsto> ?out))
               \<and> cap (dataOutput ?out) = nat (OutputBufferSize (config f))
               \<and> buf (dataOutput ?out) = [] \<and> \<not> closed (dataOutput ?out)
               \<and> cap (errorOutput ?out) = 2
               \<and> buf (errorOutput ?out) = [] \<and> \<not> closed (errorOutput ?out)
               \<and> writeTimeout ?out = WriteTimeout (config f)
               \<and> launched ?f' = (if running f then launched f else Suc (launched f))
               \<and> running ?f' = running f"
      using run ex by simp
    then show "\<exists>output f'.
               Suscribe rt name f
                 = Inr ((Some (dataOutput output), Some (errorOutput output), None), f')
               \<and> (\<exists>ls'. listeners f' = Some ls' \<and> map_of ls' = (map_of ls)(name \<mapsto> output))
               \<and> cap (dataOutput output) = nat (OutputBufferSize (config f))
               \<and> buf (dataOutput output) = [] \<and> \<not> closed (dataOutput output)
               \<and> cap (errorOutput output) = 2
               \<and> buf (errorOutput output) = [] \<and> \<not> closed (errorOutput output)
               \<and> writeTimeout output = WriteTimeout (config f)
               \<and> launched f' = (if running f then launched f else Suc (launched f))
               \<and> running f' = running f"
      by blast
  qed
  from new dup show ?thesis by (rule conjI)
qed

theorem Suscribe_stores_output_witness:
  "\<exists>output f'.
      Suscribe exampleRuntime ''a'' (configured 5)
        = Inr ((Some (dataOutput output), Some (errorOutput output), None), f')
      \<and> (\<exists>ls'. listeners f' = Some ls' \<and> map_of ls' = [''a'' \<mapsto> output])
      \<and> cap (dataOutput output) = 5
      \<and> buf (dataOutput output) = [] \<and> \<not> closed (dataOutput output)
      \<and> cap (errorOutput output) = 2
      \<and> buf (errorOutput output) = [] \<and> \<not> closed (errorOutput output)
      \<and> writeTimeout output = 1000000000
      \<and> launched f' = 1 \<and> \<not> running f'"
proof -
  have h1: "listeners (configured 5) = Some []" by (simp add: fanout_eval)
  have h2: "0 \<le> OutputBufferSize (config (configured 5))" by (simp add: fanout_eval)
  have h3: "OutputBufferSize (config (configured 5)) \<le> maxDataChan exampleRuntime"
    by (simp add: fanout_eval)
  have h4: "2 \<le> maxErrorChan exampleRuntime" by (simp add: fanout_eval)
  have v: "OutputBufferSize (config (configured 5)) = 5"
    "WriteTimeout (config (configured 5)) = 1000000000"
    "running (configured 5) = False" "launched (configured 5) = 0"
    by (simp_all add: fanout_eval)
  from Suscribe_stores_output [OF h1 h2 h3 h4, of "''a''"] show ?thesis
    by (simp add: v)
qed

text \<open>
  The claim as stated fails for every configured size other than 2: with size 5 the
  error output is buffered to 2.
\<close>

theorem error_buffer_counterexample:
  "map_sum id fst (Suscribe exampleRuntime ''a'' (configured 5))
   = Inr (Some \<lparr>ch_id = 3, cap = 5, buf = [], closed = False\<rparr>,
          Some \<lparr>ch_id = 4, cap = 2, buf = [], closed = False\<rparr>,
          None)
   \<and> OutputBufferSize (config (configured 5)) = 5"
  by (simp add: fanout_eval)

text \<open>
  A configured size that is negative, or beyond what the runtime allocates, passes
  \<open>Setup\<close> when it is not zero, and panics the first \<open>Suscribe\<close> of a new name.
\<close>

lemma Suscribe_size_out_of_range:
  assumes "\<not> found name f"
    and "OutputBufferSize (config f) < 0 \<or> maxDataChan rt < OutputBufferSize (config f)"
  shows "Suscribe rt name f = Inl ChanSizeOutOfRange"
  using assms by (auto simp: Suscribe_def makeChan_def)

lemma Suscribe_max_int64_panics:
  "Setup (exampleConfig 1000000000 9223372036854775807) zeroFanout
     = ((dataInput (configured 9223372036854775807),
         errorInput (configured 9223372036854775807), None),
        configured 9223372036854775807)
   \<and> Suscribe exampleRuntime ''a'' (configured 9223372036854775807) = Inl ChanSizeOutOfRange"
  by (simp add: fanout_eval)

subsection \<open>The automatic stop\<close>

lemma close_open:
  "outputOpen output \<Longrightarrow> \<exists>closedOutput. close timerFirst output err = Inr closedOutput"
  by (simp add: outputOpen_def close_def sendError_def trySend_def chanClose_def)

lemma closeAll_open:
  assumes "list_all (\<lambda>(name, output). outputOpen output) ls" and "listeners f = Some ls0"
  shows "\<exists>f' ls'. closeAll timerFirst ls f = Inr f' \<and> listeners f' = Some ls'
           \<and> fst ` set ls' = fst ` set ls0 - fst ` set ls
           \<and> f'\<lparr>listeners := listeners f\<rparr> = f"
  using assms
proof (induction ls arbitrary: f ls0)
  case Nil
  then show ?case by simp
next
  case (Cons entry rest)
  obtain name out where entry: "entry = (name, out)" by (cases entry)
  from Cons.prems(1) entry have op: "outputOpen out"
    and rest: "list_all (\<lambda>(name, output). outputOpen output) rest" by simp_all
  from close_open [OF op] obtain c where c: "close (timerFirst name) out EOF = Inr c" by blast
  let ?f1 = "f\<lparr>listeners := map_option (AList.delete name) (listeners f)\<rparr>"
  have l1: "listeners ?f1 = Some (AList.delete name ls0)"
    using Cons.prems(2) by simp
  from Cons.IH [OF rest l1]
  obtain f' ls' where f': "closeAll timerFirst rest ?f1 = Inr f'" "listeners f' = Some ls'"
    "fst ` set ls' = fst ` set (AList.delete name ls0) - fst ` set rest"
    "f'\<lparr>listeners := listeners ?f1\<rparr> = ?f1" by blast
  have run: "closeAll timerFirst (entry # rest) f = Inr f'"
    using entry c f'(1) by simp
  have keys: "fst ` set ls' = fst ` set ls0 - fst ` set (entry # rest)"
    using f'(3) entry by (auto simp: keys_delete)
  from f'(4) have "(f'\<lparr>listeners := listeners ?f1\<rparr>)\<lparr>listeners := listeners f\<rparr>
      = ?f1\<lparr>listeners := listeners f\<rparr>" by simp
  then have frame: "f'\<lparr>listeners := listeners f\<rparr> = f" by simp
  from run f'(2) keys frame show ?case by blast
qed

lemma onStop_stops:
  assumes "listeners g = Some ls" and "list_all (\<lambda>(name, output). outputOpen output) ls"
    and "stopChan g = Some c" and "buf c \<noteq> []"
  shows "\<exists>g'. onStop closeTimer g = Inr g' \<and> \<not> running g' \<and> listeners g' = Some []
           \<and> stopChan g' = Some (c\<lparr>buf := tl (buf c)\<rparr>)"
proof -
  let ?g1 = "g\<lparr>stopChan := Some (c\<lparr>buf := tl (buf c)\<rparr>)\<rparr>"
  have l1: "listeners ?g1 = Some ls" using assms(1) by simp
  from closeAll_open [OF assms(2) l1, of closeTimer]
  obtain f' ls' where f': "closeAll closeTimer ls ?g1 = Inr f'" "listeners f' = Some ls'"
    "fst ` set ls' = fst ` set ls - fst ` set ls" "f'\<lparr>listeners := listeners ?g1\<rparr> = ?g1"
    by blast
  from f'(3) have "ls' = []" by simp
  have "stopChan (f'\<lparr>listeners := listeners ?g1\<rparr>) = stopChan ?g1"
    by (simp only: f'(4))
  then have sc: "stopChan f' = Some (c\<lparr>buf := tl (buf c)\<rparr>)" by simp
  have "onStop closeTimer g = Inr (f'\<lparr>running := False\<rparr>)"
    using assms f'(1) by (simp add: onStop_def)
  with f'(2) \<open>ls' = []\<close> sc show ?thesis by simp
qed

text \<open>
  What holds of the automatic stop. Let the fan-out be running with exactly one
  subscription, whose channels are open, and let the stop channel hold no signal. Then
  \<open>UnsuscribeWithError\<close> (and \<open>Unsuscribe\<close>, which is the call with \<open>io.EOF\<close>) with
  that name returns true and no error, leaves the mapping empty and one signal on the
  stop channel; the fan-out is still running. When the dispatch loop then takes the
  stop case, \<open>dispatch\<close> returns with the fan-out not running and the mapping empty,
  also when other names have subscribed in between.
\<close>

lemma last_unsuscribe_stops:
  assumes "running f" and "listeners f = Some [(name, output)]" and "outputOpen output"
    and "stopChanEmpty f"
  shows "Unsuscribe timerFirst name f = UnsuscribeWithError timerFirst name EOF f
         \<and> (\<exists>f'. UnsuscribeWithError timerFirst name err f = Inr ((True, None), f')
               \<and> listeners f' = Some [] \<and> running f'
               \<and> (\<exists>c. stopChan f' = Some c \<and> buf c = [Signal])
               \<and> (\<exists>f''. dispatchRound sendTimer closeTimer StopSignal f' = Inr (f'', True)
                      \<and> \<not> running f'' \<and> listeners f'' = Some [])
               \<and> (\<forall>ls. list_all (\<lambda>(n, out). outputOpen out) ls \<longrightarrow>
                      (\<exists>f''. dispatchRound sendTimer closeTimer StopSignal
                                (f'\<lparr>listeners := Some ls\<rparr>) = Inr (f'', True)
                         \<and> \<not> running f'' \<and> listeners f'' = Some [])))"
proof -
  from assms(4) obtain c where c: "stopChan f = Some c" "buf c = []" "cap c = 1" "\<not> closed c"
    by (auto simp: stopChanEmpty_def split: option.splits)
  from close_open [OF assms(3)] obtain closedOutput
    where cl: "close timerFirst output err = Inr closedOutput" by blast
  let ?f' = "f\<lparr>listeners := Some [], stopChan := Some (c\<lparr>buf := [Signal]\<rparr>)\<rparr>"
  have run: "UnsuscribeWithError timerFirst name err f = Inr ((True, None), ?f')"
    using assms(1,2) c cl by (simp add: UnsuscribeWithError_def chanSend_def)
  have later: "\<exists>f''. dispatchRound sendTimer closeTimer StopSignal (?f'\<lparr>listeners := Some ls\<rparr>)
                     = Inr (f'', True)
                  \<and> \<not> running f'' \<and> listeners f'' = Some []"
    if open_ls: "list_all (\<lambda>(n, out). outputOpen out) ls" for ls
  proof -
    have "listeners (?f'\<lparr>listeners := Some ls\<rparr>) = Some ls"
      "stopChan (?f'\<lparr>listeners := Some ls\<rparr>) = Some (c\<lparr>buf := [Signal]\<rparr>)"
      "buf (c\<lparr>buf := [Signal]\<rparr>) \<noteq> []"
      by simp_all
    from onStop_stops [OF this(1) open_ls this(2,3), of closeTimer]
    obtain f'' where "onStop closeTimer (?f'\<lparr>listeners := Some ls\<rparr>) = Inr f''"
      "\<not> running f''" "listeners f'' = Some []" by blast
    then show ?thesis by (simp add: dispatchRound_def)
  qed
  have "?f'\<lparr>listeners := Some []\<rparr> = ?f'" by simp
  with later [of "[]"]
  have now: "\<exists>f''. dispatchRound sendTimer closeTimer StopSignal ?f' = Inr (f'', True)
                  \<and> \<not> running f'' \<and> listeners f'' = Some []"
    by simp
  have st: "listeners ?f' = Some []" "running ?f'"
    "\<exists>c. stopChan ?f' = Some c \<and> buf c = [Signal]"
    using assms(1) by simp_all
  have general: "\<forall>ls. list_all (\<lambda>(n, out). outputOpen out) ls \<longrightarrow>
                      (\<exists>f''. dispatchRound sendTimer closeTimer StopSignal
                                (?f'\<lparr>listeners := Some ls\<rparr>) = Inr (f'', True)
                         \<and> \<not> running f'' \<and> listeners f'' = Some [])"
    using later by blast
  have "UnsuscribeWithError timerFirst name err f = Inr ((True, None), ?f')
               \<and> listeners ?f' = Some [] \<and> running ?f'
               \<and> (\<exists>c. stopChan ?f' = Some c \<and> buf c = [Signal])
               \<and> (\<exists>f''. dispatchRound sendTimer closeTimer StopSignal ?f' = Inr (f'', True)
                      \<and> \<not> running f'' \<and> listeners f'' = Some [])
               \<and> (\<forall>ls. list_all (\<lambda>(n, out). outputOpen out) ls \<longrightarrow>
                      (\<exists>f''. dispatchRound sendTimer closeTimer StopSignal
                                (?f'\<lparr>listeners := Some ls\<rparr>) = Inr (f'', True)
                         \<and> \<not> running f'' \<and> listeners f'' = Some []))"
    using run st now general by (intro conjI)
  then have "\<exists>f'. UnsuscribeWithError timerFirst name err f = Inr ((True, None), f')
               \<and> listeners f' = Some [] \<and> running f'
               \<and> (\<exists>c. stopChan f' = Some c \<and> buf c = [Signal])
               \<and> (\<exists>f''. dispatchRound sendTimer closeTimer StopSignal f' = Inr (f'', True)
                      \<and> \<not> running f'' \<and> listeners f'' = Some [])
               \<and> (\<forall>ls. list_all (\<lambda>(n, out). outputOpen out) ls \<longrightarrow>
                      (\<exists>f''. dispatchRound sendTimer closeTimer StopSignal
                                (f'\<lparr>listeners := Some ls\<rparr>) = Inr (f'', True)
                         \<and> \<not> running f'' \<and> listeners f'' = Some []))"
    by (rule exI)
  then show ?thesis by (simp add: Unsuscribe_def)
qed

lemma last_unsuscribe_stops_example:
  "\<exists>f f' f''. oneListener = Inr f
     \<and> Unsuscribe False ''a'' f = Inr ((True, None), f')
     \<and> listeners f' = Some [] \<and> running f'
     \<and> dispatchRound sendWins sendWins StopSignal f' = Inr (f'', True)
     \<and> \<not> running f'' \<and> listeners f'' = Some []"
proof -
  obtain f out where f: "oneListener = Inr f" and h1: "running f"
    and h2: "listeners f = Some [(''a'', out)]" and h3: "outputOpen out"
    and h4: "stopChanEmpty f"
    by (simp add: fanout_eval outputOpen_def stopChanEmpty_def)
  from last_unsuscribe_stops [OF h1 h2 h3 h4, of False EOF sendWins sendWins] f
  show ?thesis by auto
qed

text \<open>
  Claim C6 at the inputs where it fails. The stop signal is a blocking send on a
  channel of capacity 1, and the dispatch loop is the only receiver of that channel.
  When the loop itself removes the last subscription, after a write timeout, while a
  stop signal is pending, its send blocks for ever with the lock held and the fan-out
  still running. The pending signal is that of a \<open>Stop\<close> in the first state, and that
  of an earlier automatic stop, with no \<open>Stop\<close> at all, in the second.
\<close>

theorem dispatch_blocks_on_own_stop_signal:
  "(\<exists>f output. pendingStop = Inr f
      \<and> running f \<and> listeners f = Some [(''a'', output)] \<and> outputOpen output
      \<and> dataInput f \<noteq> None
      \<and> dispatchRound sendWins sendWins (DataItem 2) f = Inl Blocked)
   \<and> (\<exists>f output. pendingAutoStop = Inr f
      \<and> running f \<and> listeners f = Some [(''c'', output)] \<and> outputOpen output
      \<and> dataInput f \<noteq> None
      \<and> dispatchRound sendWins sendWins (DataItem 2) f = Inl Blocked)"
  by (simp add: fanout_eval outputOpen_def)

end
